theory Spec2Isabelle
  imports Complex_Main "HOL-Library.Multiset"
begin

section \<open>Errors\<close>

text \<open>
  The exceptions the two modules can raise. An \<open>assert\<close> that fails is
  \<open>AssertionError\<close>; a dictionary lookup of a missing key is \<open>KeyError\<close>, carrying the key;
  an attribute read on \<open>None\<close> is \<open>AttributeError\<close>; an index outside an array is
  \<open>IndexError\<close>; numpy's shape mismatch is \<open>ValueError\<close>. \<open>RangeError\<close> is the
  error of the feature codec.
\<close>

datatype error =
    AssertionError
  | KeyError int
  | AttributeError
  | IndexError
  | ValueError
  | RangeError

section \<open>The trial ledger and its transformer\<close>

type_synonym config = "(string \<times> real) list"

record PendingEvaluation =
  trial_id :: string
  resource :: int

record Observation =
  obs_trial_id :: string
  resource_level :: int
  metric_value :: real
  elapsed_time :: real

text \<open>
  Modelled from the spec: \<open>TuningJobState\<close> (the trial ledger, module
  \<open>tuning_job_state\<close>) is not among the sources. It records every trial's configuration,
  the observations, the pending evaluations and the trials marked failed.
\<close>

record TuningJobState =
  config_for_trial :: "(string \<times> config) list"
  trials_evaluations :: "Observation list"
  failed_trials :: "string list"
  pending_evaluations :: "PendingEvaluation list"

text \<open>
  Modelled from the spec: \<open>TuningJobState.is_pending\<close> and
  \<open>TuningJobState.is_labeled\<close> are missing; a (trial, resource) pair is pending when a
  pending evaluation of the ledger carries it, labeled when an observation does.
\<close>

definition is_pending :: "TuningJobState \<Rightarrow> string \<Rightarrow> int \<Rightarrow> bool" where
  "is_pending st t r =
     list_ex (\<lambda>x. trial_id x = t \<and> resource x = r) (pending_evaluations st)"

definition is_labeled :: "TuningJobState \<Rightarrow> string \<Rightarrow> int \<Rightarrow> bool" where
  "is_labeled st t r =
     list_ex (\<lambda>x. obs_trial_id x = t \<and> resource_level x = r) (trials_evaluations st)"

text \<open>
  Modelled from the spec: \<open>ModelStateTransformer\<close> (module \<open>model_transformer\<close>) is
  missing. It owns the ledger, the model factory, the skip-optimization predicate and the
  cached hyperparameters of the last fit.
\<close>

record ('mf, 'so, 'hp) ModelStateTransformer =
  state :: TuningJobState
  model_factory :: 'mf
  skip_optimization :: 'so
  model_params :: "'hp option"

text \<open>
  Modelled from the spec: \<open>ModelStateTransformer.append_trial\<close> is missing; it inserts
  the pending evaluation (trial, resource) and registers the configuration of a trial the
  ledger does not know yet.
\<close>

definition append_trial ::
  "('mf, 'so, 'hp) ModelStateTransformer \<Rightarrow> string \<Rightarrow> config option \<Rightarrow> int
     \<Rightarrow> ('mf, 'so, 'hp) ModelStateTransformer" where
  "append_trial tr t cfg r =
     (let st = state tr;
          configs = (case (map_of (config_for_trial st) t, cfg) of
                       (None, Some c) \<Rightarrow> config_for_trial st @ [(t, c)]
                     | _ \<Rightarrow> config_for_trial st)
      in tr\<lparr>state := st\<lparr>config_for_trial := configs,
                         pending_evaluations :=
                           pending_evaluations st @ [\<lparr>trial_id = t, resource = r\<rparr>]\<rparr>\<rparr>)"

text \<open>
  Modelled from the spec: \<open>ModelStateTransformer.filter_pending_evaluations\<close> is
  missing. As Python's \<open>filter\<close> does with its predicate, it keeps the pending
  evaluations for which \<open>filter_pred\<close> holds and drops the others.
\<close>

definition filter_pending_evaluations ::
  "('mf, 'so, 'hp) ModelStateTransformer \<Rightarrow> (PendingEvaluation \<Rightarrow> bool)
     \<Rightarrow> ('mf, 'so, 'hp) ModelStateTransformer" where
  "filter_pending_evaluations tr filter_pred =
     tr\<lparr>state := (state tr)\<lparr>pending_evaluations :=
                                filter filter_pred (pending_evaluations (state tr))\<rparr>\<rparr>"

text \<open>
  Modelled from the spec: \<open>ModelStateTransformer.mark_trial_failed\<close> is missing; it
  marks the trial failed and touches nothing else.
\<close>

definition mark_trial_failed ::
  "('mf, 'so, 'hp) ModelStateTransformer \<Rightarrow> string \<Rightarrow> ('mf, 'so, 'hp) ModelStateTransformer" where
  "mark_trial_failed tr t =
     tr\<lparr>state := (state tr)\<lparr>failed_trials :=
                                (if t \<in> set (failed_trials (state tr)) then failed_trials (state tr)
                                 else failed_trials (state tr) @ [t])\<rparr>\<rparr>"

section \<open>The multi-fidelity searcher\<close>

text \<open>
  \<open>GPMultiFidelitySearcher\<close>. The attribute \<open>state_transformer\<close> is \<open>None\<close> once
  the searcher has been invalidated; \<open>searcher_kwargs\<close> stands for the constructor
  arguments that \<open>_new_searcher_kwargs_for_clone\<close> hands over to a clone.
\<close>

record ('mf, 'so, 'hp, 'cs, 'ra, 'kw) GPMultiFidelitySearcher =
  state_transformer :: "('mf, 'so, 'hp) ModelStateTransformer option"
  config_space_ext :: 'cs
  resource_for_acquisition :: "'ra option"
  searcher_kwargs :: 'kw

text \<open>
  An operation of the searcher returns what it raised (\<open>None\<close> when it returned normally)
  together with the searcher as the call leaves it.
\<close>

definition register_pending ::
  "string \<Rightarrow> config option \<Rightarrow> int option \<Rightarrow> ('mf, 'so, 'hp, 'cs, 'ra, 'kw) GPMultiFidelitySearcher
     \<Rightarrow> error option \<times> ('mf, 'so, 'hp, 'cs, 'ra, 'kw) GPMultiFidelitySearcher" where
  "register_pending t cfg milestone self =
     (case milestone of
        None \<Rightarrow> (Some AssertionError, self)
      | Some m \<Rightarrow>
          (case state_transformer self of
             None \<Rightarrow> (Some AttributeError, self)
           | Some tr \<Rightarrow>
               if \<not> is_pending (state tr) t m then
                 if is_labeled (state tr) t m then (Some AssertionError, self)
                 else (None, self\<lparr>state_transformer := Some (append_trial tr t cfg m)\<rparr>)
               else (None, self)))"

definition cleanup_pending ::
  "string \<Rightarrow> ('mf, 'so, 'hp, 'cs, 'ra, 'kw) GPMultiFidelitySearcher
     \<Rightarrow> error option \<times> ('mf, 'so, 'hp, 'cs, 'ra, 'kw) GPMultiFidelitySearcher" where
  "cleanup_pending t self =
     (let filter_pred = (\<lambda>x. trial_id x = t)
      in case state_transformer self of
           None \<Rightarrow> (Some AttributeError, self)
         | Some tr \<Rightarrow>
             (None, self\<lparr>state_transformer := Some (filter_pending_evaluations tr filter_pred)\<rparr>))"

definition evaluation_failed ::
  "string \<Rightarrow> ('mf, 'so, 'hp, 'cs, 'ra, 'kw) GPMultiFidelitySearcher
     \<Rightarrow> error option \<times> ('mf, 'so, 'hp, 'cs, 'ra, 'kw) GPMultiFidelitySearcher" where
  "evaluation_failed t self =
     (case cleanup_pending t self of
        (Some e, self') \<Rightarrow> (Some e, self')
      | (None, self') \<Rightarrow>
          (case state_transformer self' of
             None \<Rightarrow> (Some AttributeError, self')
           | Some tr \<Rightarrow> (None, self'\<lparr>state_transformer := Some (mark_trial_failed tr t)\<rparr>)))"

text \<open>
  The serialized state handed to \<open>clone_from_state\<close>: the entries \<open>"state"\<close> and
  \<open>"skip_optimization"\<close> the method reads, and the cached hyperparameters that
  \<open>_restore_from_state\<close> reads.
\<close>

record ('enc, 'so, 'hp) searcher_state =
  encoded_state :: 'enc
  state_skip_optimization :: 'so
  state_model_params :: 'hp

text \<open>
  Modelled from the spec: the internal constructor of the searcher (in \<open>GPFIFOSearcher\<close>,
  not among the sources), which creates the state transformer from \<open>model_factory\<close>,
  \<open>init_state\<close> and \<open>skip_optimization\<close> with no hyperparameters cached yet.
\<close>

definition new_GPMultiFidelitySearcher ::
  "'kw \<Rightarrow> 'mf \<Rightarrow> TuningJobState \<Rightarrow> 'so \<Rightarrow> 'cs \<Rightarrow> 'ra option
     \<Rightarrow> ('mf, 'so, 'hp, 'cs, 'ra, 'kw) GPMultiFidelitySearcher" where
  "new_GPMultiFidelitySearcher kwargs mf init_state skip cse rfa =
     \<lparr>state_transformer =
        Some \<lparr>state = init_state, model_factory = mf, skip_optimization = skip,
              model_params = None\<rparr>,
      config_space_ext = cse, resource_for_acquisition = rfa, searcher_kwargs = kwargs\<rparr>"

text \<open>
  Modelled from the spec: \<open>_restore_from_state\<close> (in \<open>GPFIFOSearcher\<close>, not among the
  sources) restores the hyperparameter cache from the snapshot.
\<close>

definition restore_from_state ::
  "('mf, 'so, 'hp, 'cs, 'ra, 'kw) GPMultiFidelitySearcher \<Rightarrow> ('enc, 'so, 'hp) searcher_state
     \<Rightarrow> ('mf, 'so, 'hp, 'cs, 'ra, 'kw) GPMultiFidelitySearcher" where
  "restore_from_state self st =
     self\<lparr>state_transformer :=
            map_option (\<lambda>tr. tr\<lparr>model_params := Some (state_model_params st)\<rparr>)
              (state_transformer self)\<rparr>"

text \<open>
  \<open>clone_from_state\<close> returns the clone (or the error raised) and the original searcher
  as the call leaves it. \<open>decode_state\<close>, which is not among the sources, is a parameter;
  it is applied to the encoded ledger and to \<open>_hp_ranges_in_state()\<close>, which is read off
  \<open>config_space_ext\<close> by \<open>hp_ranges_ext\<close>.
\<close>

definition clone_from_state ::
  "('enc \<Rightarrow> 'hr \<Rightarrow> TuningJobState) \<Rightarrow> ('cs \<Rightarrow> 'hr)
     \<Rightarrow> ('mf, 'so, 'hp, 'cs, 'ra, 'kw) GPMultiFidelitySearcher \<Rightarrow> ('enc, 'so, 'hp) searcher_state
     \<Rightarrow> (error + ('mf, 'so, 'hp, 'cs, 'ra, 'kw) GPMultiFidelitySearcher)
         \<times> ('mf, 'so, 'hp, 'cs, 'ra, 'kw) GPMultiFidelitySearcher" where
  "clone_from_state decode_state hp_ranges_ext self st =
     (let init_state = decode_state (encoded_state st) (hp_ranges_ext (config_space_ext self));
          skip = state_skip_optimization st
      in case state_transformer self of
           None \<Rightarrow> (Inl AttributeError, self)
         | Some tr \<Rightarrow>
             (let mf = model_factory tr;
                  new_searcher =
                    new_GPMultiFidelitySearcher (searcher_kwargs self) mf init_state skip
                      (config_space_ext self) (resource_for_acquisition self);
                  new_searcher' = restore_from_state new_searcher st
              in (Inr new_searcher', self\<lparr>state_transformer := None\<rparr>)))"

text \<open>
  The invariant of the ledger's data model: no (trial, resource) pair is both pending and
  already observed.
\<close>

definition pending_unobserved :: "TuningJobState \<Rightarrow> bool" where
  "pending_unobserved st =
     list_all (\<lambda>x. \<not> is_labeled st (trial_id x) (resource x)) (pending_evaluations st)"

subsection \<open>A small searcher to run the operations on\<close>

definition example_ledger :: TuningJobState where
  "example_ledger =
     \<lparr>config_for_trial = [(''0'', [(''lr'', 1)]), (''1'', [(''lr'', 2)])],
      trials_evaluations =
        [\<lparr>obs_trial_id = ''0'', resource_level = 1, metric_value = 1 / 2, elapsed_time = 1\<rparr>],
      failed_trials = [],
      pending_evaluations =
        [\<lparr>trial_id = ''0'', resource = 3\<rparr>, \<lparr>trial_id = ''1'', resource = 1\<rparr>]\<rparr>"

definition example_transformer :: "(nat, bool, nat) ModelStateTransformer" where
  "example_transformer =
     \<lparr>state = example_ledger, model_factory = 0, skip_optimization = False,
      model_params = None\<rparr>"

definition example_searcher :: "(nat, bool, nat, unit, nat, unit) GPMultiFidelitySearcher" where
  "example_searcher =
     \<lparr>state_transformer = Some example_transformer, config_space_ext = (),
      resource_for_acquisition = None, searcher_kwargs = ()\<rparr>"

definition example_snapshot :: "(TuningJobState, bool, nat) searcher_state" where
  "example_snapshot =
     \<lparr>encoded_state = example_ledger\<lparr>failed_trials := [''1'']\<rparr>,
      state_skip_optimization = True, state_model_params = 7\<rparr>"

section \<open>The independent-per-resource posterior state\<close>

text \<open>
  A matrix is the list of its rows; an extended feature row is the configuration vector
  followed by the resource coordinate.

  Modelled from the spec: \<open>decode_extended_features\<close> (module \<open>hp_ranges_impl\<close>) is
  missing. Decoding is a pure split: the configuration columns are all but the last, the
  resource column is the last, an integer within the declared range \<open>(r_min, r_max)\<close>;
  a resource outside the range fails with \<open>RangeError\<close>.
\<close>

definition decode_row_ok :: "int \<times> int \<Rightarrow> real list \<Rightarrow> bool" where
  "decode_row_ok resource_attr_range row =
     (row \<noteq> [] \<and> of_int \<lfloor>last row\<rfloor> = last row
      \<and> fst resource_attr_range \<le> \<lfloor>last row\<rfloor> \<and> \<lfloor>last row\<rfloor> \<le> snd resource_attr_range)"

definition decode_extended_features ::
  "real list list \<Rightarrow> int \<times> int \<Rightarrow> error + (real list list \<times> int list)" where
  "decode_extended_features features_ext resource_attr_range =
     (if list_all (decode_row_ok resource_attr_range) features_ext
      then Inr (map butlast features_ext, map (\<lambda>row. \<lfloor>last row\<rfloor>) features_ext)
      else Inl RangeError)"

text \<open>
  Modelled from the spec: \<open>GaussProcPosteriorState\<close>, the single-fidelity posterior of
  one resource level (module \<open>gpautograd.posterior_state\<close>), is missing. It is the
  record of the methods the per-resource state calls. \<open>'g\<close> is the state of the random
  generator, which the two sampling methods draw from and advance.
\<close>

record 'g GaussProcPosteriorState =
  gp_neg_log_likelihood :: real
  gp_predict :: "real list list \<Rightarrow> real list list \<times> real list"
  gp_sample_marginals :: "real list list \<Rightarrow> nat \<Rightarrow> 'g \<Rightarrow> real list list \<times> 'g"
  gp_sample_joint :: "real list list \<Rightarrow> nat \<Rightarrow> 'g \<Rightarrow> real list list \<times> 'g"
  gp_backward_gradient ::
    "real list list \<Rightarrow> (string \<times> real list) list \<Rightarrow> real \<Rightarrow> real \<Rightarrow> real list"

text \<open>
  \<open>IndependentGPPerResourcePosteriorState\<close>. The dictionaries \<open>_states\<close> and
  \<open>_mean\<close> are association lists in insertion order; a mean function \<open>mu_r\<close> maps a
  configuration vector to its prior mean.
\<close>

record 'g IndependentGPPerResourcePosteriorState =
  states :: "(int \<times> 'g GaussProcPosteriorState) list"
  mean :: "(int \<times> (real list \<Rightarrow> real)) list"
  num_data :: nat
  num_features :: nat
  num_fantasies :: nat
  resource_attr_range :: "int \<times> int"

text \<open>numpy's \<open>flatnonzero(resources == resource)\<close> and indexing by a list of rows.\<close>

definition flatnonzero_eq :: "int list \<Rightarrow> int \<Rightarrow> nat list" where
  "flatnonzero_eq resources r = filter (\<lambda>i. resources ! i = r) [0..<length resources]"

definition take_rows :: "'a list \<Rightarrow> nat list \<Rightarrow> error + 'a list" where
  "take_rows xs rows =
     (if list_all (\<lambda>i. i < length xs) rows then Inr (map (\<lambda>i. xs ! i) rows)
      else Inl IndexError)"

text \<open>
  \<open>_compute_states\<close>: one posterior per resource level of \<open>mean\<close> that has at least one
  training row. The constructor of \<open>GaussProcPosteriorState\<close> is the parameter
  \<open>new_gp\<close>, applied to the rows of the resource, its mean function, the kernel (\<open>kern\<close>) with
  the covariance scale of the resource, and the noise variance.
\<close>

fun compute_states_loop ::
  "(real list list \<Rightarrow> real list list \<Rightarrow> (real list \<Rightarrow> real) \<Rightarrow> 'k \<times> real \<Rightarrow> real
      \<Rightarrow> 'g GaussProcPosteriorState)
   \<Rightarrow> real list list \<Rightarrow> int list \<Rightarrow> real list list \<Rightarrow> 'k \<Rightarrow> (int \<times> real) list \<Rightarrow> real
   \<Rightarrow> (int \<times> (real list \<Rightarrow> real)) list
   \<Rightarrow> error + (int \<times> 'g GaussProcPosteriorState) list" where
  "compute_states_loop new_gp features resources targets kern covariance_scale
       noise_variance [] = Inr []"
| "compute_states_loop new_gp features resources targets kern covariance_scale
       noise_variance ((r, mean_function) # rest) =
     (case map_of covariance_scale r of
        None \<Rightarrow> Inl (KeyError r)
      | Some cov_scale \<Rightarrow>
          (let rows = flatnonzero_eq resources r
           in if rows \<noteq> [] then
                (case take_rows features rows of
                   Inl e \<Rightarrow> Inl e
                 | Inr r_features \<Rightarrow>
                     (case take_rows targets rows of
                        Inl e \<Rightarrow> Inl e
                      | Inr r_targets \<Rightarrow>
                          (case compute_states_loop new_gp features resources targets kern
                                  covariance_scale noise_variance rest of
                             Inl e \<Rightarrow> Inl e
                           | Inr sts \<Rightarrow>
                               Inr ((r, new_gp r_features r_targets mean_function
                                          (kern, cov_scale) noise_variance) # sts))))
              else compute_states_loop new_gp features resources targets kern
                     covariance_scale noise_variance rest))"

definition compute_states ::
  "(real list list \<Rightarrow> real list list \<Rightarrow> (real list \<Rightarrow> real) \<Rightarrow> 'k \<times> real \<Rightarrow> real
      \<Rightarrow> 'g GaussProcPosteriorState)
   \<Rightarrow> real list list \<Rightarrow> real list list \<Rightarrow> 'k \<Rightarrow> (int \<times> (real list \<Rightarrow> real)) list
   \<Rightarrow> (int \<times> real) list \<Rightarrow> real \<Rightarrow> int \<times> int
   \<Rightarrow> error + (int \<times> 'g GaussProcPosteriorState) list" where
  "compute_states new_gp features targets kern mean_dict covariance_scale noise_variance
       rng =
     (case decode_extended_features features rng of
        Inl e \<Rightarrow> Inl e
      | Inr (feats, resources) \<Rightarrow>
          compute_states_loop new_gp feats resources targets kern covariance_scale
            noise_variance mean_dict)"

text \<open>
  The constructor \<open>__init__\<close>. The number of columns of a matrix is read off its first
  row.
\<close>

definition num_columns :: "real list list \<Rightarrow> nat" where
  "num_columns m = (case m of [] \<Rightarrow> 0 | row # _ \<Rightarrow> length row)"

definition new_IndependentGPPerResourcePosteriorState ::
  "(real list list \<Rightarrow> real list list \<Rightarrow> (real list \<Rightarrow> real) \<Rightarrow> 'k \<times> real \<Rightarrow> real
      \<Rightarrow> 'g GaussProcPosteriorState)
   \<Rightarrow> real list list \<Rightarrow> real list list \<Rightarrow> 'k \<Rightarrow> (int \<times> (real list \<Rightarrow> real)) list
   \<Rightarrow> (int \<times> real) list \<Rightarrow> real \<Rightarrow> int \<times> int
   \<Rightarrow> error + 'g IndependentGPPerResourcePosteriorState" where
  "new_IndependentGPPerResourcePosteriorState new_gp features targets kern mean_dict
       covariance_scale noise_variance rng =
     (if set (map fst mean_dict) \<noteq> set (map fst covariance_scale) then Inl AssertionError
      else
        (case compute_states new_gp features targets kern mean_dict covariance_scale
                noise_variance rng of
           Inl e \<Rightarrow> Inl e
         | Inr sts \<Rightarrow>
             Inr \<lparr>states = sts, mean = mean_dict, num_data = length features,
                  num_features = num_columns features, num_fantasies = num_columns targets,
                  resource_attr_range = rng\<rparr>))"

definition neg_log_likelihood :: "'g IndependentGPPerResourcePosteriorState \<Rightarrow> real" where
  "neg_log_likelihood self = sum_list (map (\<lambda>(r, st). gp_neg_log_likelihood st) (states self))"

text \<open>
  \<open>predict\<close>. numpy's \<open>argsort\<close> is the parameter \<open>argsort\<close>: the order it gives to
  equal resources is not fixed. \<open>predict_groups\<close> is the list comprehension over the
  groups \<open>(start, end)\<close> of equal resources; on an empty batch it reads
  \<open>resources[0]\<close> and raises \<open>IndexError\<close>. \<open>reverse_index\<close> is the
  array \<open>reverse_ind\<close>, filled by \<open>reverse_ind[ind] = arange(num_rows)\<close> from an
  uninitialised array (here zeros); \<open>ind\<close> comes from \<open>argsort\<close>, so every
  assignment is in range.
\<close>

fun predict_groups ::
  "'g IndependentGPPerResourcePosteriorState \<Rightarrow> real list list \<Rightarrow> int list
     \<Rightarrow> (nat \<times> nat) list \<Rightarrow> error + (real list list \<times> real list) list" where
  "predict_groups self test_features resources [] = Inr []"
| "predict_groups self test_features resources ((start, stop) # rest) =
     (if start < length resources then
        (case map_of (states self) (resources ! start) of
           None \<Rightarrow> Inl (KeyError (resources ! start))
         | Some st \<Rightarrow>
             (case predict_groups self test_features resources rest of
                Inl e \<Rightarrow> Inl e
              | Inr out \<Rightarrow>
                  Inr (gp_predict st (take (stop - start) (drop start test_features)) # out)))
      else Inl IndexError)"

definition change_positions :: "int list \<Rightarrow> nat list" where
  "change_positions resources =
     [0] @ map (\<lambda>i. i + 1)
             (filter (\<lambda>i. resources ! i \<noteq> resources ! (i + 1)) [0..<length resources - 1])
         @ [length resources]"

definition reverse_index :: "nat list \<Rightarrow> nat list" where
  "reverse_index ind =
     fold (\<lambda>k acc. acc[ind ! k := k]) [0..<length ind] (replicate (length ind) 0)"

definition predict ::
  "(int list \<Rightarrow> nat list) \<Rightarrow> 'g IndependentGPPerResourcePosteriorState \<Rightarrow> real list list
     \<Rightarrow> error + (real list list \<times> real list)" where
  "predict argsort self test_features_ext =
     (case decode_extended_features test_features_ext (resource_attr_range self) of
        Inl e \<Rightarrow> Inl e
      | Inr (test_features, resources) \<Rightarrow>
          if length (remdups resources) = 1 then
            (case map_of (states self) (resources ! 0) of
               None \<Rightarrow> Inl (KeyError (resources ! 0))
             | Some st \<Rightarrow> Inr (gp_predict st test_features))
          else
            (let ind = argsort resources
             in case take_rows test_features ind of
                  Inl e \<Rightarrow> Inl e
                | Inr test_features' \<Rightarrow>
                    (case take_rows resources ind of
                       Inl e \<Rightarrow> Inl e
                     | Inr resources' \<Rightarrow>
                         (let change_pos = change_positions resources'
                          in case predict_groups self test_features' resources'
                                    (zip (butlast change_pos) (tl change_pos)) of
                               Inl e \<Rightarrow> Inl e
                             | Inr out \<Rightarrow>
                                 (let reverse_ind = reverse_index ind
                                  in case take_rows (concat (map fst out)) reverse_ind of
                                       Inl e \<Rightarrow> Inl e
                                     | Inr posterior_means \<Rightarrow>
                                         (case take_rows (concat (map snd out)) reverse_ind of
                                            Inl e \<Rightarrow> Inl e
                                          | Inr posterior_variances \<Rightarrow>
                                              Inr (posterior_means, posterior_variances)))))))"

text \<open>
  \<open>_split_features\<close>. The order in which Python iterates over \<open>set(resources)\<close> is the
  parameter \<open>set_iter\<close>.
\<close>

fun split_features_loop ::
  "'g IndependentGPPerResourcePosteriorState \<Rightarrow> bool \<Rightarrow> real list list \<Rightarrow> int list
     \<Rightarrow> int list \<Rightarrow> error + (int \<times> real list list \<times> nat list) list" where
  "split_features_loop self check_for_state features resources [] = Inr []"
| "split_features_loop self check_for_state features resources (r # rest) =
     (if check_for_state \<and> map_of (states self) r = None then Inl AssertionError
      else
        (let rows = flatnonzero_eq resources r
         in case take_rows features rows of
              Inl e \<Rightarrow> Inl e
            | Inr r_features \<Rightarrow>
                (case split_features_loop self check_for_state features resources rest of
                   Inl e \<Rightarrow> Inl e
                 | Inr result \<Rightarrow> Inr ((r, r_features, rows) # result))))"

definition split_features ::
  "(int list \<Rightarrow> int list) \<Rightarrow> 'g IndependentGPPerResourcePosteriorState \<Rightarrow> real list list
     \<Rightarrow> bool \<Rightarrow> error + (int \<times> real list list \<times> nat list) list" where
  "split_features set_iter self features_ext check_for_state =
     (case decode_extended_features features_ext (resource_attr_range self) of
        Inl e \<Rightarrow> Inl e
      | Inr (features, resources) \<Rightarrow>
          split_features_loop self check_for_state features resources (set_iter resources))"

text \<open>
  The array \<open>samples\<close> is the list of its rows. A row holds \<open>num_samples\<close> values when
  there is one fantasy and the \<open>nf\<close> by \<open>num_samples\<close> block, flattened, otherwise.
  \<open>set_rows\<close> is the assignment \<open>samples[rows] = values\<close> of one value row per index;
  values with another number of rows are refused with \<open>ValueError\<close> (numpy's
  broadcasting of a single row over all indices is left out).
\<close>

definition row_size :: "nat \<Rightarrow> nat \<Rightarrow> nat" where
  "row_size nf num_samples = (if nf = 1 then num_samples else nf * num_samples)"

definition set_rows :: "'a list \<Rightarrow> nat list \<Rightarrow> 'a list \<Rightarrow> error + 'a list" where
  "set_rows samples rows vals =
     (if length vals \<noteq> length rows then Inl ValueError
      else if \<not> list_all (\<lambda>i. i < length samples) rows then Inl IndexError
      else Inr (fold (\<lambda>(i, v) acc. acc[i := v]) (zip rows vals) samples))"

fun sample_marginals_loop ::
  "'g IndependentGPPerResourcePosteriorState \<Rightarrow> nat \<Rightarrow> (int \<times> real list list \<times> nat list) list
     \<Rightarrow> real list list \<Rightarrow> 'g \<Rightarrow> error + (real list list \<times> 'g)" where
  "sample_marginals_loop self num_samples [] samples random_state =
     Inr (samples, random_state)"
| "sample_marginals_loop self num_samples ((r, features, rows) # rest) samples random_state =
     (case map_of (states self) r of
        None \<Rightarrow> Inl (KeyError r)
      | Some st \<Rightarrow>
          (case gp_sample_marginals st features num_samples random_state of
             (s_margs, random_state') \<Rightarrow>
               (case set_rows samples rows s_margs of
                  Inl e \<Rightarrow> Inl e
                | Inr samples' \<Rightarrow>
                    sample_marginals_loop self num_samples rest samples' random_state')))"

definition sample_marginals ::
  "(int list \<Rightarrow> int list) \<Rightarrow> 'g IndependentGPPerResourcePosteriorState \<Rightarrow> real list list
     \<Rightarrow> nat \<Rightarrow> 'g \<Rightarrow> error + (real list list \<times> 'g)" where
  "sample_marginals set_iter self test_features num_samples random_state =
     (case split_features set_iter self test_features True of
        Inl e \<Rightarrow> Inl e
      | Inr features_per_resource \<Rightarrow>
          (let num_test = length test_features;
               nf = num_fantasies self;
               samples = replicate num_test (replicate (row_size nf num_samples) 0)
           in sample_marginals_loop self num_samples features_per_resource samples
                random_state))"

text \<open>
  \<open>sample_joint\<close>. For a resource without posterior, \<open>s_joint\<close> is the column of the
  prior means of the rows of the resource, of shape \<open>(k, 1)\<close> (the shape with which the
  assignment works for one fantasy and any \<open>num_samples\<close>), and
  \<open>samples[rows] = s_joint\<close> broadcasts it over the block \<open>samples[rows]\<close> as numpy
  does; \<open>broadcast_mean\<close> is that broadcast. With one fantasy the block has shape
  \<open>(k, num_samples)\<close> and row j is filled with the mean of row j. Otherwise the block has
  shape \<open>(k, nf, num_samples)\<close> and the column is aligned with its last two axes: numpy
  raises \<open>ValueError\<close> unless k is 1 or nf, and then fills fantasy f of every row with
  the mean of row f (of the only row when k is 1).
\<close>

definition broadcast_mean :: "nat \<Rightarrow> nat \<Rightarrow> real list \<Rightarrow> error + real list list" where
  "broadcast_mean nf num_samples column =
     (let k = length column
      in if nf = 1 then Inr (map (\<lambda>m. replicate num_samples m) column)
         else if k = 1 \<or> k = nf then
           Inr (replicate k
                  (concat (map (\<lambda>f. replicate num_samples (column ! (if k = 1 then 0 else f)))
                             [0..<nf])))
         else Inl ValueError)"

fun sample_joint_loop ::
  "'g IndependentGPPerResourcePosteriorState \<Rightarrow> nat \<Rightarrow> (int \<times> real list list \<times> nat list) list
     \<Rightarrow> real list list \<Rightarrow> 'g \<Rightarrow> error + (real list list \<times> 'g)" where
  "sample_joint_loop self num_samples [] samples random_state = Inr (samples, random_state)"
| "sample_joint_loop self num_samples ((r, features, rows) # rest) samples random_state =
     (case map_of (states self) r of
        Some st \<Rightarrow>
          (case gp_sample_joint st features num_samples random_state of
             (s_joint, random_state') \<Rightarrow>
               (case set_rows samples rows s_joint of
                  Inl e \<Rightarrow> Inl e
                | Inr samples' \<Rightarrow>
                    sample_joint_loop self num_samples rest samples' random_state'))
      | None \<Rightarrow>
          (case map_of (mean self) r of
             None \<Rightarrow> Inl (KeyError r)
           | Some mean_function \<Rightarrow>
               (case broadcast_mean (num_fantasies self) num_samples
                       (map mean_function features) of
                  Inl e \<Rightarrow> Inl e
                | Inr s_joint \<Rightarrow>
                    (case set_rows samples rows s_joint of
                       Inl e \<Rightarrow> Inl e
                     | Inr samples' \<Rightarrow>
                         sample_joint_loop self num_samples rest samples' random_state))))"

definition sample_joint ::
  "(int list \<Rightarrow> int list) \<Rightarrow> 'g IndependentGPPerResourcePosteriorState \<Rightarrow> real list list
     \<Rightarrow> nat \<Rightarrow> 'g \<Rightarrow> error + (real list list \<times> 'g)" where
  "sample_joint set_iter self test_features num_samples random_state =
     (case split_features set_iter self test_features False of
        Inl e \<Rightarrow> Inl e
      | Inr features_per_resource \<Rightarrow>
          (let num_test = length test_features;
               nf = num_fantasies self;
               samples = replicate num_test (replicate (row_size nf num_samples) 0)
           in sample_joint_loop self num_samples features_per_resource samples random_state))"

text \<open>
  \<open>backward_gradient\<close>. The input is one extended vector; the final \<open>reshape\<close> to the
  shape of the input raises \<open>ValueError\<close> when the sizes differ.
\<close>

definition backward_gradient ::
  "'g IndependentGPPerResourcePosteriorState \<Rightarrow> real list \<Rightarrow> (string \<times> real list) list
     \<Rightarrow> real \<Rightarrow> real \<Rightarrow> error + real list" where
  "backward_gradient self input head_gradients mean_data std_data =
     (case decode_extended_features [input] (resource_attr_range self) of
        Inl e \<Rightarrow> Inl e
      | Inr (inner_input, resources) \<Rightarrow>
          (if length resources \<noteq> 1 then Inl AssertionError
           else
             (case map_of (states self) (resources ! 0) of
                None \<Rightarrow> Inl (KeyError (resources ! 0))
              | Some st \<Rightarrow>
                  (let inner_grad =
                         gp_backward_gradient st inner_input head_gradients mean_data std_data;
                       grad = inner_grad @ [0]
                   in if length grad = length input then Inr grad else Inl ValueError))))"

subsection \<open>A small posterior state to run the operations on\<close>

definition example_gp :: "real \<Rightarrow> nat GaussProcPosteriorState" where
  "example_gp c =
     \<lparr>gp_neg_log_likelihood = c,
      gp_predict = (\<lambda>xs. (map (\<lambda>x. [sum_list x + c]) xs, map (\<lambda>x. c) xs)),
      gp_sample_marginals =
        (\<lambda>xs n g. (map (\<lambda>x. replicate n (sum_list x + c + real g)) xs, Suc g)),
      gp_sample_joint =
        (\<lambda>xs n g. (map (\<lambda>x. replicate n (sum_list x - c - real g)) xs, Suc g)),
      gp_backward_gradient = (\<lambda>xs hg m s. map (\<lambda>v. c * v) (concat xs))\<rparr>"

definition example_new_gp ::
  "real list list \<Rightarrow> real list list \<Rightarrow> (real list \<Rightarrow> real) \<Rightarrow> unit \<times> real \<Rightarrow> real
     \<Rightarrow> nat GaussProcPosteriorState" where
  "example_new_gp features targets mean_function kern_scale noise_variance =
     example_gp (snd kern_scale * sum_list (map sum_list targets) + noise_variance)"

definition example_mean :: "(int \<times> (real list \<Rightarrow> real)) list" where
  "example_mean = [(1, \<lambda>x. 0), (3, \<lambda>x. sum_list x), (9, \<lambda>x. 5 + sum_list x)]"

definition example_state :: "nat IndependentGPPerResourcePosteriorState" where
  "example_state =
     \<lparr>states = [(1, example_gp 1), (3, example_gp 2)], mean = example_mean,
      num_data = 3, num_features = 3, num_fantasies = 1, resource_attr_range = (1, 9)\<rparr>"

text \<open>A posterior state with two fantasies: its targets have two columns.\<close>

definition example_state_two_fantasies :: "nat IndependentGPPerResourcePosteriorState" where
  "example_state_two_fantasies =
     \<lparr>states = [(1, example_gp 1)], mean = example_mean,
      num_data = 1, num_features = 2, num_fantasies = 2, resource_attr_range = (1, 9)\<rparr>"

text \<open>
  One admissible \<open>argsort\<close>, the stable one, for running \<open>predict\<close>; \<open>remdups\<close> serves
  as an iteration order of \<open>set(resources)\<close>.
\<close>

definition stable_argsort :: "int list \<Rightarrow> nat list" where
  "stable_argsort rs = sort_key (\<lambda>i. rs ! i) [0..<length rs]"

text \<open>The two parts of a decoded batch, as \<open>decode_extended_features\<close> returns them.\<close>

abbreviation resource_column :: "real list list \<Rightarrow> int list" where
  "resource_column features_ext \<equiv> map (\<lambda>row. \<lfloor>last row\<rfloor>) features_ext"

abbreviation config_columns :: "real list list \<Rightarrow> real list list" where
  "config_columns features_ext \<equiv> map butlast features_ext"


section \<open>Properties of the searcher\<close>

lemma is_pending_append_trial: "is_pending (state (append_trial tr t cfg r)) t r"
  by (simp add: append_trial_def is_pending_def Let_def list_ex_iff)

lemma is_labeled_append_trial:
  "is_labeled (state (append_trial tr t cfg r)) t' r' = is_labeled (state tr) t' r'"
  by (simp add: append_trial_def is_labeled_def Let_def)

lemma pending_unobserved_not_both:
  "pending_unobserved st \<Longrightarrow> is_labeled st t r \<Longrightarrow> \<not> is_pending st t r"
  by (auto simp: pending_unobserved_def is_pending_def list_all_iff list_ex_iff)

text \<open>\<open>register_pending\<close> keeps the ledger's invariant.\<close>

lemma register_pending_keeps_invariant:
  "state_transformer self = Some tr \<Longrightarrow> pending_unobserved (state tr) \<Longrightarrow>
   state_transformer (snd (register_pending t cfg m self)) = Some tr' \<Longrightarrow>
   pending_unobserved (state tr')"
  by (auto simp: register_pending_def pending_unobserved_def is_labeled_append_trial list_all_iff
       split: option.splits if_splits) (auto simp: append_trial_def Let_def is_labeled_def)

lemma example_searcher_simps:
  "state_transformer example_searcher = Some example_transformer"
  "state example_transformer = example_ledger"
  by (simp_all add: example_searcher_def example_transformer_def)

lemma example_ledger_facts:
  "pending_unobserved example_ledger"
  "is_labeled example_ledger ''0'' 1"
  "is_pending example_ledger ''0'' 3"
  by (simp_all add: example_ledger_def pending_unobserved_def is_labeled_def is_pending_def)

text \<open>
  Claim C5. Calling \<open>register_pending\<close> for (t, r) a second time has the outcome and
  leaves the searcher of the first call: it is a no-op once (t, r) is pending. When the
  ledger, in which no pair is both pending and observed, already holds an observation for
  (t, r), the call fails on its assertion and the searcher is unchanged.
\<close>

theorem register_pending_idempotent_conflict:
  "register_pending t cfg (Some r) (snd (register_pending t cfg (Some r) self))
     = register_pending t cfg (Some r) self
   \<and> (state_transformer self = Some tr \<and> is_pending (state tr) t r
        \<longrightarrow> register_pending t cfg (Some r) self = (None, self))
   \<and> (state_transformer self = Some tr \<and> pending_unobserved (state tr)
          \<and> is_labeled (state tr) t r
        \<longrightarrow> register_pending t cfg (Some r) self = (Some AssertionError, self))"
  by (auto simp: register_pending_def is_pending_append_trial
      dest: pending_unobserved_not_both split: option.splits)

theorem register_pending_idempotent_conflict_witness:
  "state_transformer example_searcher = Some example_transformer
   \<and> pending_unobserved (state example_transformer)
   \<and> is_labeled (state example_transformer) ''0'' 1
   \<and> is_pending (state example_transformer) ''0'' 3
   \<and> register_pending ''0'' None (Some 1) example_searcher
       = (Some AssertionError, example_searcher)
   \<and> register_pending ''0'' None (Some 3) example_searcher = (None, example_searcher)
   \<and> register_pending ''1'' None (Some 3)
         (snd (register_pending ''1'' None (Some 3) example_searcher))
       = register_pending ''1'' None (Some 3) example_searcher"
  using register_pending_idempotent_conflict
          [of "''0''" None 1 example_searcher example_transformer]
        register_pending_idempotent_conflict
          [of "''0''" None 3 example_searcher example_transformer]
        register_pending_idempotent_conflict
          [of "''1''" None 3 example_searcher example_transformer]
  by (simp add: example_searcher_simps example_ledger_facts)

text \<open>
  Claim C10. Without a resource level (\<open>milestone\<close> is \<open>None\<close>) \<open>register_pending\<close>
  fails on its first assertion, whatever the trial, the configuration and the searcher,
  and leaves the searcher as it was.
\<close>

theorem register_pending_requires_milestone:
  "register_pending t cfg None self = (Some AssertionError, self)"
  by (simp add: register_pending_def)

text \<open>
  What \<open>evaluation_failed\<close> leaves pending: the entries that \<open>filter_pred\<close> of
  \<open>cleanup_pending\<close> selects, which are those of the failed trial itself.
\<close>

lemma evaluation_failed_pending:
  "state_transformer self = Some tr \<Longrightarrow>
   map_option (pending_evaluations \<circ> state) (state_transformer (snd (evaluation_failed t self)))
     = Some (filter (\<lambda>x. trial_id x = t) (pending_evaluations (state tr)))"
  by (simp add: evaluation_failed_def cleanup_pending_def filter_pending_evaluations_def
      mark_trial_failed_def)

text \<open>
  Claim C6. The claim asks that \<open>evaluation_failed t\<close> removes the pending evaluations
  of trial t and no others. On the example ledger, where trial 0 is pending at resource 3
  and trial 1 at resource 1, \<open>evaluation_failed\<close> of trial 0 marks it failed and leaves
  observations and configurations alone, but the pending evaluation of trial 0 stays and
  the one of trial 1 is gone.
\<close>

theorem evaluation_failed_keeps_pending_of_failed_trial:
  "evaluation_failed ''0'' example_searcher =
     (None, example_searcher\<lparr>state_transformer :=
        Some (example_transformer\<lparr>state := example_ledger\<lparr>failed_trials := [''0''],
           pending_evaluations := [\<lparr>trial_id = ''0'', resource = 3\<rparr>]\<rparr>\<rparr>)\<rparr>)"
  by (simp add: evaluation_failed_def cleanup_pending_def filter_pending_evaluations_def
      mark_trial_failed_def example_searcher_def example_transformer_def example_ledger_def)

text \<open>
  Claim C7. For a searcher that has not been invalidated, \<open>clone_from_state\<close> returns
  a new searcher whose ledger is the decoded snapshot, whose skip-optimization predicate
  and cached hyperparameters are those of the snapshot, and which keeps the model factory
  and the extended configuration space of the original. The original is left with no state
  transformer: every operation on it that would touch the state raises instead.
\<close>

theorem clone_from_state_restores_and_invalidates:
  "state_transformer self = Some tr \<Longrightarrow>
   clone_from_state decode_state hp_ranges_ext self st
     = (Inr \<lparr>state_transformer =
               Some \<lparr>state = decode_state (encoded_state st)
                                (hp_ranges_ext (config_space_ext self)),
                     model_factory = model_factory tr,
                     skip_optimization = state_skip_optimization st,
                     model_params = Some (state_model_params st)\<rparr>,
             config_space_ext = config_space_ext self,
             resource_for_acquisition = resource_for_acquisition self,
             searcher_kwargs = searcher_kwargs self\<rparr>,
        self\<lparr>state_transformer := None\<rparr>)
   \<and> register_pending t cfg (Some r) (self\<lparr>state_transformer := None\<rparr>)
       = (Some AttributeError, self\<lparr>state_transformer := None\<rparr>)
   \<and> evaluation_failed t (self\<lparr>state_transformer := None\<rparr>)
       = (Some AttributeError, self\<lparr>state_transformer := None\<rparr>)
   \<and> cleanup_pending t (self\<lparr>state_transformer := None\<rparr>)
       = (Some AttributeError, self\<lparr>state_transformer := None\<rparr>)
   \<and> clone_from_state decode_state hp_ranges_ext (self\<lparr>state_transformer := None\<rparr>) st'
       = (Inl AttributeError, self\<lparr>state_transformer := None\<rparr>)"
  by (simp add: clone_from_state_def new_GPMultiFidelitySearcher_def restore_from_state_def
      register_pending_def evaluation_failed_def cleanup_pending_def Let_def)

theorem clone_from_state_restores_and_invalidates_witness:
  "state_transformer example_searcher = Some example_transformer
   \<and> clone_from_state (\<lambda>enc hr. enc) (\<lambda>cs. cs) example_searcher example_snapshot
     = (Inr (example_searcher\<lparr>state_transformer :=
               Some \<lparr>state = example_ledger\<lparr>failed_trials := [''1'']\<rparr>, model_factory = 0,
                     skip_optimization = True, model_params = Some 7\<rparr>\<rparr>),
        example_searcher\<lparr>state_transformer := None\<rparr>)
   \<and> register_pending ''0'' None (Some 9) (example_searcher\<lparr>state_transformer := None\<rparr>)
     = (Some AttributeError, example_searcher\<lparr>state_transformer := None\<rparr>)"
proof -
  have h: "state_transformer example_searcher = Some example_transformer"
    by (simp add: example_searcher_def)
  show ?thesis
    using h clone_from_state_restores_and_invalidates
              [OF h, of "\<lambda>enc hr. enc" "\<lambda>cs. cs" example_snapshot "''0''" None 9
                 example_snapshot]
    by (simp add: example_searcher_def example_transformer_def example_snapshot_def)
qed

section \<open>Properties of the posterior state\<close>

lemma decode_ok:
  "list_all (decode_row_ok rng) fs \<Longrightarrow>
   decode_extended_features fs rng = Inr (map butlast fs, map (\<lambda>row. \<lfloor>last row\<rfloor>) fs)"
  by (simp add: decode_extended_features_def)

lemma flatnonzero_eq_bound: "i \<in> set (flatnonzero_eq rs r) \<Longrightarrow> i < length rs"
  by (simp add: flatnonzero_eq_def)

lemma flatnonzero_eq_nonempty: "flatnonzero_eq rs r \<noteq> [] \<longleftrightarrow> r \<in> set rs"
  by (auto simp: flatnonzero_eq_def filter_empty_conv in_set_conv_nth)

lemma take_rows_ok:
  "\<forall>i\<in>set rows. i < length xs \<Longrightarrow> take_rows xs rows = Inr (map (\<lambda>i. xs ! i) rows)"
  by (simp add: take_rows_def list_all_iff)

lemma take_rows_flatnonzero:
  "length rs \<le> length xs \<Longrightarrow>
   take_rows xs (flatnonzero_eq rs r) = Inr (map (\<lambda>i. xs ! i) (flatnonzero_eq rs r))"
  by (rule take_rows_ok) (auto dest: flatnonzero_eq_bound)

text \<open>
  Claim C8. For one extended input whose resource is in range and has a posterior,
  \<open>backward_gradient\<close> returns the gradient of that resource's posterior at the
  configuration coordinates followed by a zero for the resource coordinate, a vector as
  long as the input. The per-resource gradient is taken to be as long as its input.
\<close>

theorem backward_gradient_routes_and_pads:
  assumes "decode_row_ok (resource_attr_range self) input"
    and "map_of (states self) \<lfloor>last input\<rfloor> = Some st"
    and "length (gp_backward_gradient st [butlast input] head_gradients mean_data std_data)
           = length (butlast input)"
  shows "backward_gradient self input head_gradients mean_data std_data
           = Inr (gp_backward_gradient st [butlast input] head_gradients mean_data std_data @ [0])
         \<and> length (gp_backward_gradient st [butlast input] head_gradients mean_data std_data @ [0])
             = length input"
proof -
  from assms(1) have ne: "input \<noteq> []" by (simp add: decode_row_ok_def)
  then have len: "length (butlast input) + 1 = length input"
    by (cases input rule: rev_cases) auto
  have dec: "decode_extended_features [input] (resource_attr_range self)
               = Inr ([butlast input], [\<lfloor>last input\<rfloor>])"
    using assms(1) by (simp add: decode_extended_features_def)
  show ?thesis
    using assms(2,3) len by (simp add: backward_gradient_def dec Let_def)
qed

theorem backward_gradient_routes_and_pads_witness:
  "decode_row_ok (resource_attr_range example_state) [1 / 2, 1 / 4, 3]
   \<and> map_of (states example_state) \<lfloor>last [1 / 2, 1 / 4, 3 :: real]\<rfloor> = Some (example_gp 2)
   \<and> backward_gradient example_state [1 / 2, 1 / 4, 3] [] 0 1 = Inr [1, 1 / 2, 0]"
proof -
  have h1: "decode_row_ok (resource_attr_range example_state) [1 / 2, 1 / 4, 3]"
    by (simp add: example_state_def decode_row_ok_def)
  have h2: "map_of (states example_state) \<lfloor>last [1 / 2, 1 / 4, 3 :: real]\<rfloor>
              = Some (example_gp 2)"
    by (simp add: example_state_def)
  have h3: "length (gp_backward_gradient (example_gp 2) [butlast [1 / 2, 1 / 4, 3]] [] 0 1)
           = length (butlast [1 / 2, 1 / 4, 3 :: real])"
    by (simp add: example_gp_def)
  show ?thesis
    using h1 h2 backward_gradient_routes_and_pads [OF h1 h2 h3] by (simp add: example_gp_def)
qed

text \<open>
  What \<open>_compute_states\<close> builds: for each resource level of \<open>mean\<close> that occurs in
  the training data, in the order of \<open>mean\<close>, the posterior of the training rows of that
  level.
\<close>

lemma compute_states_loop_ok:
  assumes "set (map fst md) \<subseteq> set (map fst cs)"
    and "length rs \<le> length feats" and "length rs \<le> length targets"
  shows "compute_states_loop new_gp feats rs targets kern cs noise md
     = Inr (map (\<lambda>(r, mu). (r, new_gp (map (\<lambda>i. feats ! i) (flatnonzero_eq rs r))
                                 (map (\<lambda>i. targets ! i) (flatnonzero_eq rs r)) mu
                                 (kern, the (map_of cs r)) noise))
              (filter (\<lambda>(r, mu). r \<in> set rs) md))"
  using assms(1)
proof (induction md)
  case Nil
  then show ?case by simp
next
  case (Cons a md)
  obtain r mu where a: "a = (r, mu)" by (cases a)
  from Cons.prems a have "r \<in> fst ` set cs" by simp
  then obtain c where c: "map_of cs r = Some c"
    by (metis map_of_eq_None_iff not_None_eq)
  from Cons have IH: "compute_states_loop new_gp feats rs targets kern cs noise md
     = Inr (map (\<lambda>(r, mu). (r, new_gp (map (\<lambda>i. feats ! i) (flatnonzero_eq rs r))
                                 (map (\<lambda>i. targets ! i) (flatnonzero_eq rs r)) mu
                                 (kern, the (map_of cs r)) noise))
              (filter (\<lambda>(r, mu). r \<in> set rs) md))" by simp
  show ?case
    using assms(2,3)
    by (simp add: a c IH Let_def take_rows_flatnonzero flatnonzero_eq_nonempty)
qed

text \<open>
  Claim C3. A posterior state built from training data whose resources are in range, with
  a target row for every feature row, has as negative log-likelihood the sum, over the
  resource levels of \<open>mean\<close> that occur in the data, of the negative log-likelihood of
  the posterior fitted to the rows of that level alone.
\<close>

theorem neg_log_likelihood_is_sum_over_resources:
  assumes "list_all (decode_row_ok rng) features"
    and "set (map fst mean_dict) = set (map fst covariance_scale)"
    and "length features \<le> length targets"
  shows "\<exists>ps. new_IndependentGPPerResourcePosteriorState new_gp features targets kern mean_dict
                 covariance_scale noise_variance rng = Inr ps
          \<and> neg_log_likelihood ps =
              (\<Sum>(r, mu) \<leftarrow> filter (\<lambda>(r, mu). r \<in> set (map (\<lambda>row. \<lfloor>last row\<rfloor>) features))
                              mean_dict.
                 gp_neg_log_likelihood
                   (new_gp (map (\<lambda>i. map butlast features ! i)
                              (flatnonzero_eq (map (\<lambda>row. \<lfloor>last row\<rfloor>) features) r))
                           (map (\<lambda>i. targets ! i)
                              (flatnonzero_eq (map (\<lambda>row. \<lfloor>last row\<rfloor>) features) r))
                           mu (kern, the (map_of covariance_scale r)) noise_variance))"
proof -
  have "compute_states new_gp features targets kern mean_dict covariance_scale noise_variance rng
     = Inr (map (\<lambda>(r, mu). (r, new_gp (map (\<lambda>i. map butlast features ! i)
                              (flatnonzero_eq (map (\<lambda>row. \<lfloor>last row\<rfloor>) features) r))
                           (map (\<lambda>i. targets ! i)
                              (flatnonzero_eq (map (\<lambda>row. \<lfloor>last row\<rfloor>) features) r))
                           mu (kern, the (map_of covariance_scale r)) noise_variance))
              (filter (\<lambda>(r, mu). r \<in> set (map (\<lambda>row. \<lfloor>last row\<rfloor>) features)) mean_dict))"
    unfolding compute_states_def decode_ok[OF assms(1)]
    using assms(2,3) by (simp add: compute_states_loop_ok)
  then show ?thesis
    using assms(2)
    by (simp add: new_IndependentGPPerResourcePosteriorState_def neg_log_likelihood_def
        comp_def case_prod_unfold)
qed

theorem neg_log_likelihood_is_sum_over_resources_witness:
  "list_all (decode_row_ok (1, 9)) [[0, 1], [1, 3], [2, 1]]
   \<and> set (map fst example_mean) = set (map fst [(1 :: int, 1 :: real), (3, 2), (9, 1)])
   \<and> (\<exists>ps. new_IndependentGPPerResourcePosteriorState example_new_gp
              [[0, 1], [1, 3], [2, 1]] [[1], [2], [3]] () example_mean
              [(1, 1), (3, 2), (9, 1)] 0 (1, 9) = Inr ps
           \<and> neg_log_likelihood ps = 8)"
proof -
  have h1: "list_all (decode_row_ok (1, 9)) [[0, 1], [1, 3], [2, 1]]"
    by (simp add: decode_row_ok_def)
  have h2: "set (map fst example_mean) = set (map fst [(1 :: int, 1 :: real), (3, 2), (9, 1)])"
    by (simp add: example_mean_def)
  have h3: "length [[0, 1], [1, 3], [2, 1 :: real]] \<le> length [[1], [2], [3 :: real]]" by simp
  have up: "[0..<3] = [0, 1, 2]" by (simp add: upt_rec)
  show ?thesis
    using h1 h2 neg_log_likelihood_is_sum_over_resources [OF h1 h2 h3, of example_new_gp "()" 0]
    by (simp add: example_mean_def example_new_gp_def example_gp_def flatnonzero_eq_def up)
qed

lemma remdups_one: 
  assumes "length (remdups rs) = 1" shows "set rs = {rs ! 0}"
proof -
  from assms have c: "card (set rs) = 1" by (simp add: length_remdups_card_conv)
  then obtain x where x: "set rs = {x}" by (auto simp: card_1_singleton_iff)
  from c have "rs \<noteq> []" by auto
  then have "rs ! 0 \<in> set rs" by (simp add: hd_conv_nth[symmetric])
  with x show ?thesis by simp
qed

lemma sorted_indices:
  assumes "sort ind = [0..<n]"
  shows "set ind = {0..<n}" and "length ind = n" and "distinct ind"
proof -
  have m: "mset ind = mset [0..<n]" using assms by (metis mset_sort)
  from m show "set ind = {0..<n}" by (metis mset_eq_setD set_upt)
  from m show "length ind = n" by (metis mset_eq_length length_upt diff_zero)
  from m show "distinct ind" by (metis mset_eq_imp_distinct_iff distinct_upt)
qed

lemma predict_groups_missing:
  assumes "\<forall>(s, e) \<in> set groups. s < length rs"
    and "\<exists>(s, e) \<in> set groups. map_of (states self) (rs ! s) = None"
  shows "\<exists>r. predict_groups self fs rs groups = Inl (KeyError r) \<and> r \<in> set rs
             \<and> map_of (states self) r = None"
  using assms
proof (induction groups)
  case Nil
  then show ?case by simp
next
  case (Cons g groups)
  obtain s e where g: "g = (s, e)" by (cases g)
  from Cons.prems g have s: "s < length rs" by simp
  show ?case
  proof (cases "map_of (states self) (rs ! s)")
    case None
    with s g show ?thesis by auto
  next
    case (Some st)
    with Cons.prems g have "\<exists>(s, e) \<in> set groups. map_of (states self) (rs ! s) = None" by auto
    moreover from Cons.prems have "\<forall>(s, e) \<in> set groups. s < length rs" by simp
    ultimately obtain r where "predict_groups self fs rs groups = Inl (KeyError r)"
      "r \<in> set rs" "map_of (states self) r = None"
      using Cons.IH by blast
    with s g Some show ?thesis by simp
  qed
qed

lemma group_starts:
  "map fst (zip (butlast (change_positions rs)) (tl (change_positions rs)))
     = 0 # map Suc (filter (\<lambda>i. rs ! i \<noteq> rs ! (i + 1)) [0..<length rs - 1])"
proof -
  have len: "length (butlast (change_positions rs)) = length (tl (change_positions rs))" by simp
  have "map fst (zip (butlast (change_positions rs)) (tl (change_positions rs)))
          = butlast (change_positions rs)"
    using len by (simp add: map_fst_zip)
  also have "\<dots> = 0 # map Suc (filter (\<lambda>i. rs ! i \<noteq> rs ! (i + 1)) [0..<length rs - 1])"
    by (simp add: change_positions_def butlast_append)
  finally show ?thesis .
qed

lemma group_starts_bound:
  assumes "rs \<noteq> []"
  shows "\<forall>(s, e) \<in> set (zip (butlast (change_positions rs)) (tl (change_positions rs))).
           s < length rs"
proof -
  have "\<forall>s \<in> set (map fst (zip (butlast (change_positions rs)) (tl (change_positions rs)))).
          s < length rs"
    unfolding group_starts using assms by auto
  then show ?thesis by (auto dest!: set_zip_leftD)
qed

lemma group_starts_cover:
  assumes "v \<in> set rs"
  shows "\<exists>(s, e) \<in> set (zip (butlast (change_positions rs)) (tl (change_positions rs))).
           rs ! s = v"
proof -
  define j where "j = (LEAST j. j < length rs \<and> rs ! j = v)"
  from assms obtain k where "k < length rs" "rs ! k = v" by (auto simp: in_set_conv_nth)
  then have j: "j < length rs \<and> rs ! j = v" unfolding j_def
    by (metis (mono_tags, lifting) LeastI)
  have least: "\<And>i. i < length rs \<Longrightarrow> rs ! i = v \<Longrightarrow> j \<le> i"
    unfolding j_def by (simp add: Least_le)
  have "j \<in> set (map fst (zip (butlast (change_positions rs)) (tl (change_positions rs))))"
  proof (cases j)
    case 0
    then show ?thesis unfolding group_starts by simp
  next
    case (Suc i)
    with j least[of i] have "rs ! i \<noteq> rs ! (i + 1)" "i < length rs - 1" by auto
    with Suc show ?thesis unfolding group_starts by auto
  qed
  then have "j \<in> set (butlast (change_positions rs))" by simp
  then obtain e where "(j, e) \<in> set (zip (butlast (change_positions rs)) (tl (change_positions rs)))"
    using in_set_impl_in_set_zip1[of "butlast (change_positions rs)" "tl (change_positions rs)" j]
    by auto
  with j show ?thesis by auto
qed

lemma split_features_loop_missing:
  assumes "length rs \<le> length fs" and "\<exists>r \<in> set order. map_of (states self) r = None"
  shows "split_features_loop self True fs rs order = Inl AssertionError"
  using assms(2)
proof (induction order)
  case Nil
  then show ?case by simp
next
  case (Cons r order)
  show ?case
  proof (cases "map_of (states self) r")
    case None
    then show ?thesis by simp
  next
    case (Some st)
    with Cons have "split_features_loop self True fs rs order = Inl AssertionError" by auto
    with Some assms(1) show ?thesis by (simp add: Let_def take_rows_flatnonzero)
  qed
qed

text \<open>
  Claim C4. Take a batch whose resources are in range and one of whose rows has a resource
  without posterior; \<open>argsort\<close> returns a permutation of the row indices and
  \<open>set_iter\<close> enumerates the resources of the batch. Then \<open>predict\<close> raises the
  \<open>KeyError\<close> of the lookup in \<open>_states\<close>, for a resource of the batch that has no
  posterior, and \<open>sample_marginals\<close> fails on the assertion of \<open>_split_features\<close>:
  neither returns a value. These two exceptions are what the code has for the
  unsupported-resource error.
\<close>

theorem predict_and_sample_marginals_fail_without_posterior:
  assumes ok: "list_all (decode_row_ok (resource_attr_range self)) test_features"
    and miss: "\<exists>row \<in> set test_features. map_of (states self) \<lfloor>last row\<rfloor> = None"
    and perm: "sort (argsort (map (\<lambda>row. \<lfloor>last row\<rfloor>) test_features)) = [0..<length test_features]"
    and iter: "set (set_iter (map (\<lambda>row. \<lfloor>last row\<rfloor>) test_features))
                 = set (map (\<lambda>row. \<lfloor>last row\<rfloor>) test_features)"
  shows "(\<exists>r. predict argsort self test_features = Inl (KeyError r)
              \<and> r \<in> set (map (\<lambda>row. \<lfloor>last row\<rfloor>) test_features)
              \<and> map_of (states self) r = None)
         \<and> sample_marginals set_iter self test_features num_samples random_state
             = Inl AssertionError"
proof
  define rs where "rs = map (\<lambda>row. \<lfloor>last row\<rfloor>) test_features"
  define fs where "fs = map butlast test_features"
  have dec: "decode_extended_features test_features (resource_attr_range self) = Inr (fs, rs)"
    using decode_ok[OF ok] by (simp add: rs_def fs_def)
  from miss obtain v where v: "v \<in> set rs" "map_of (states self) v = None"
    by (auto simp: rs_def)
  have len: "length rs = length test_features" "length fs = length test_features"
    by (simp_all add: rs_def fs_def)
  show "\<exists>r. predict argsort self test_features = Inl (KeyError r)
              \<and> r \<in> set (map (\<lambda>row. \<lfloor>last row\<rfloor>) test_features)
              \<and> map_of (states self) r = None"
  proof (cases "length (remdups rs) = 1")
    case True
    from remdups_one[OF True] v have "rs ! 0 = v" by auto
    with v True show ?thesis
      by (auto simp: predict_def dec rs_def[symmetric])
  next
    case False
    define ind where "ind = argsort rs"
    from perm have p: "sort ind = [0..<length rs]" by (simp add: ind_def rs_def)
    note pi = sorted_indices[OF p]
    define rs' where "rs' = map (\<lambda>i. rs ! i) ind"
    define fs' where "fs' = map (\<lambda>i. fs ! i) ind"
    have t1: "take_rows fs ind = Inr fs'" unfolding fs'_def
      by (rule take_rows_ok) (use pi len in auto)
    have t2: "take_rows rs ind = Inr rs'" unfolding rs'_def
      by (rule take_rows_ok) (use pi in auto)
    have "set rs' = (\<lambda>i. rs ! i) ` {0..<length rs}" by (simp add: rs'_def pi(1))
    also have "\<dots> = set rs" by (force simp: in_set_conv_nth)
    finally have set': "set rs' = set rs" .
    from v set' have ne: "rs' \<noteq> []" by auto
    from v set' have "v \<in> set rs'" by simp
    from group_starts_cover[OF this] v(2)
    have "\<exists>(s, e) \<in> set (zip (butlast (change_positions rs')) (tl (change_positions rs'))).
            map_of (states self) (rs' ! s) = None" by auto
    from predict_groups_missing[OF group_starts_bound[OF ne] this, of fs']
    obtain r where r: "predict_groups self fs' rs'
          (zip (butlast (change_positions rs')) (tl (change_positions rs'))) = Inl (KeyError r)"
       "r \<in> set rs'" "map_of (states self) r = None" by blast
    show ?thesis
      using False r set'
      by (auto simp: predict_def dec Let_def ind_def[symmetric] t1 t2 rs_def[symmetric])
  qed
  have "split_features_loop self True fs rs (set_iter rs) = Inl AssertionError"
    by (rule split_features_loop_missing) (use v iter len in \<open>auto simp: rs_def\<close>)
  then show "sample_marginals set_iter self test_features num_samples random_state
             = Inl AssertionError"
    by (simp add: sample_marginals_def split_features_def dec)
qed

lemma stable_argsort_permutation: "sort (stable_argsort rs) = [0..<length rs]"
  unfolding stable_argsort_def by (rule properties_for_sort) simp_all

theorem predict_and_sample_marginals_fail_without_posterior_witness:
  "list_all (decode_row_ok (resource_attr_range example_state)) [[0, 1], [1, 9], [2, 3]]
   \<and> (\<exists>row \<in> set [[0, 1], [1, 9], [2, 3 :: real]].
         map_of (states example_state) \<lfloor>last row\<rfloor> = None)
   \<and> (\<exists>r. predict stable_argsort example_state [[0, 1], [1, 9], [2, 3]] = Inl (KeyError r)
           \<and> map_of (states example_state) r = None)
   \<and> sample_marginals remdups example_state [[0, 1], [1, 9], [2, 3]] 2 0 = Inl AssertionError"
proof -
  have h1: "list_all (decode_row_ok (resource_attr_range example_state))
              [[0, 1], [1, 9], [2, 3]]"
    by (simp add: example_state_def decode_row_ok_def)
  have h2: "\<exists>row \<in> set [[0, 1], [1, 9], [2, 3 :: real]].
              map_of (states example_state) \<lfloor>last row\<rfloor> = None"
    by (simp add: example_state_def)
  have h3: "sort (stable_argsort (map (\<lambda>row. \<lfloor>last row\<rfloor>) [[0, 1], [1, 9], [2, 3 :: real]]))
              = [0..<length [[0, 1], [1, 9], [2, 3 :: real]]]"
    using stable_argsort_permutation
            [of "map (\<lambda>row. \<lfloor>last row\<rfloor>) [[0, 1], [1, 9], [2, 3 :: real]]"]
    by simp
  have h4: "set (remdups (map (\<lambda>row. \<lfloor>last row\<rfloor>) [[0, 1], [1, 9], [2, 3 :: real]]))
              = set (map (\<lambda>row. \<lfloor>last row\<rfloor>) [[0, 1], [1, 9], [2, 3 :: real]])"
    by simp
  show ?thesis
    using h1 h2 predict_and_sample_marginals_fail_without_posterior
                  [where argsort = stable_argsort and set_iter = remdups, OF h1 h2 h3 h4, of 2 0]
    by blast
qed

lemma fold_update_length:
  "length (fold (\<lambda>(i, v) acc. acc[i := v]) zs samples) = length samples"
  by (induction zs arbitrary: samples) (auto simp: case_prod_unfold)

lemma fold_update_frame:
  "i \<notin> fst ` set zs \<Longrightarrow> fold (\<lambda>(i, v) acc. acc[i := v]) zs samples ! i = samples ! i"
  by (induction zs arbitrary: samples) (auto simp: case_prod_unfold)

lemma fold_update_value:
  "distinct (map fst zs) \<Longrightarrow> (i, v) \<in> set zs \<Longrightarrow> i < length samples \<Longrightarrow>
   fold (\<lambda>(i, v) acc. acc[i := v]) zs samples ! i = v"
proof (induction zs arbitrary: samples)
  case Nil
  then show ?case by simp
next
  case (Cons z zs)
  obtain a b where z: "z = (a, b)" by (cases z)
  show ?case
  proof (cases "(i, v) = (a, b)")
    case True
    with Cons.prems z have "i \<notin> fst ` set zs" by auto
    from fold_update_frame[OF this] True Cons.prems(3) z show ?thesis by simp
  next
    case False
    with Cons.prems z have "(i, v) \<in> set zs" "distinct (map fst zs)" by auto
    from Cons.IH[OF this(2) this(1), of "samples[a := b]"] Cons.prems(3) z
    show ?thesis by simp
  qed
qed

lemma set_rows_ok:
  assumes "distinct rows" and "\<forall>i\<in>set rows. i < length samples"
    and "length vals = length rows"
  shows "\<exists>s'. set_rows samples rows vals = Inr s' \<and> length s' = length samples
           \<and> (\<forall>j<length rows. s' ! (rows ! j) = vals ! j)
           \<and> (\<forall>i. i \<notin> set rows \<longrightarrow> s' ! i = samples ! i)"
proof -
  let ?s = "fold (\<lambda>(i, v) acc. acc[i := v]) (zip rows vals) samples"
  have eq: "set_rows samples rows vals = Inr ?s"
    using assms by (simp add: set_rows_def list_all_iff)
  have fst_zip: "map fst (zip rows vals) = rows" using assms(3) by simp
  have v: "\<forall>j<length rows. ?s ! (rows ! j) = vals ! j"
  proof (intro allI impI)
    fix j assume j: "j < length rows"
    then have a: "(rows ! j, vals ! j) \<in> set (zip rows vals)"
      using assms(3) by (auto simp: set_zip)
    have b: "distinct (map fst (zip rows vals))" using assms(1) fst_zip by simp
    have c: "rows ! j < length samples" using assms(2) j by simp
    show "?s ! (rows ! j) = vals ! j" by (rule fold_update_value[OF b a c])
  qed
  have f: "\<forall>i. i \<notin> set rows \<longrightarrow> ?s ! i = samples ! i"
  proof (intro allI impI)
    fix i assume "i \<notin> set rows"
    then have "i \<notin> fst ` set (zip rows vals)" using fst_zip by (metis set_map)
    then show "?s ! i = samples ! i" by (rule fold_update_frame)
  qed
  show ?thesis using eq v f by (simp add: fold_update_length)
qed

lemma split_features_loop_ok:
  assumes "length rs \<le> length fs"
    and "check \<longrightarrow> (\<forall>r\<in>set order. map_of (states self) r \<noteq> None)"
  shows "split_features_loop self check fs rs order
           = Inr (map (\<lambda>r. (r, map (\<lambda>i. fs ! i) (flatnonzero_eq rs r), flatnonzero_eq rs r)) order)"
  using assms(2)
  by (induction order) (use assms(1) in \<open>auto simp: Let_def take_rows_flatnonzero\<close>)

lemma sample_marginals_loop_ok:
  assumes dR: "\<And>r. distinct (R r)"
    and bR: "\<And>r i. i \<in> set (R r) \<Longrightarrow> i < n"
    and disj: "\<And>r r'. r \<noteq> r' \<Longrightarrow> set (R r) \<inter> set (R r') = {}"
    and lF: "\<And>r. length (F r) = length (R r)"
    and st: "\<forall>r\<in>set order. \<exists>st. map_of (states self) r = Some st
               \<and> (\<forall>g. length (fst (gp_sample_marginals st (F r) ns g)) = length (F r))"
    and dist: "distinct order"
    and len: "length samples = n"
  shows "\<exists>samples' g'.
           sample_marginals_loop self ns (map (\<lambda>r. (r, F r, R r)) order) samples g
             = Inr (samples', g')
           \<and> length samples' = n
           \<and> (\<forall>i. (\<forall>r\<in>set order. i \<notin> set (R r)) \<longrightarrow> samples' ! i = samples ! i)
           \<and> (\<forall>r\<in>set order. \<exists>g0. \<forall>j<length (R r).
                 samples' ! (R r ! j)
                   = fst (gp_sample_marginals (the (map_of (states self) r)) (F r) ns g0) ! j)"
  using st dist len
proof (induction order arbitrary: samples g)
  case Nil
  then show ?case by simp
next
  case (Cons r order)
  from Cons.prems(1) obtain st where st: "map_of (states self) r = Some st"
    and c: "\<And>g. length (fst (gp_sample_marginals st (F r) ns g)) = length (F r)" by auto
  obtain s_margs g1 where call: "gp_sample_marginals st (F r) ns g = (s_margs, g1)"
    by (cases "gp_sample_marginals st (F r) ns g")
  from c[of g] call lF have lv: "length s_margs = length (R r)" by simp
  have "\<forall>i\<in>set (R r). i < length samples" using bR Cons.prems(3) by simp
  from set_rows_ok[OF dR this lv] obtain s1 where
    s1: "set_rows samples (R r) s_margs = Inr s1" "length s1 = length samples"
        "\<forall>j<length (R r). s1 ! (R r ! j) = s_margs ! j"
        "\<forall>i. i \<notin> set (R r) \<longrightarrow> s1 ! i = samples ! i" by blast
  from Cons.prems have p: "\<forall>r\<in>set order. \<exists>st. map_of (states self) r = Some st
               \<and> (\<forall>g. length (fst (gp_sample_marginals st (F r) ns g)) = length (F r))"
     "distinct order" "length s1 = n" "r \<notin> set order" using s1(2) by auto
  from Cons.IH[OF p(1,2,3), of g1] obtain samples' g' where
    ih: "sample_marginals_loop self ns (map (\<lambda>r. (r, F r, R r)) order) s1 g1 = Inr (samples', g')"
        "length samples' = n"
        "\<forall>i. (\<forall>r\<in>set order. i \<notin> set (R r)) \<longrightarrow> samples' ! i = s1 ! i"
        "\<forall>r\<in>set order. \<exists>g0. \<forall>j<length (R r).
                 samples' ! (R r ! j)
                   = fst (gp_sample_marginals (the (map_of (states self) r)) (F r) ns g0) ! j"
    by blast
  have run: "sample_marginals_loop self ns (map (\<lambda>r. (r, F r, R r)) (r # order)) samples g
               = Inr (samples', g')"
    by (simp add: st call s1(1) ih(1))
  have frame: "\<forall>i. (\<forall>r'\<in>set (r # order). i \<notin> set (R r')) \<longrightarrow> samples' ! i = samples ! i"
    using ih(3) s1(4) by simp
  have own: "\<forall>j<length (R r). samples' ! (R r ! j)
                   = fst (gp_sample_marginals (the (map_of (states self) r)) (F r) ns g) ! j"
  proof (intro allI impI)
    fix j assume j: "j < length (R r)"
    then have m: "R r ! j \<in> set (R r)" by simp
    have "\<forall>r'\<in>set order. R r ! j \<notin> set (R r')"
    proof
      fix r' assume "r' \<in> set order"
      with p(4) have "r \<noteq> r'" by auto
      from disj[OF this] m show "R r ! j \<notin> set (R r')" by auto
    qed
    with ih(3) have "samples' ! (R r ! j) = s1 ! (R r ! j)" by simp
    with s1(3) j call st show "samples' ! (R r ! j)
                   = fst (gp_sample_marginals (the (map_of (states self) r)) (F r) ns g) ! j"
      by simp
  qed
  show ?case
    unfolding run using ih(2) frame own ih(4) by auto
qed

lemma flatnonzero_eq_distinct: "distinct (flatnonzero_eq rs r)"
  by (simp add: flatnonzero_eq_def)

lemma flatnonzero_eq_disjoint:
  "r \<noteq> r' \<Longrightarrow> set (flatnonzero_eq rs r) \<inter> set (flatnonzero_eq rs r') = {}"
  by (auto simp: flatnonzero_eq_def)

lemma flatnonzero_eq_member: "i < length rs \<Longrightarrow> i \<in> set (flatnonzero_eq rs (rs ! i))"
  by (simp add: flatnonzero_eq_def)

text \<open>
  Claim C9. Take a batch whose resources are in range and all have a posterior;
  \<open>set_iter\<close> enumerates the resources of the batch once each, and a per-resource
  \<open>sample_marginals\<close> returns one row of samples per feature row. Then
  \<open>sample_marginals\<close> returns an array with one row per input row, and for every
  resource r of the batch the rows at the positions of r in the batch
  (\<open>flatnonzero_eq\<close>, in increasing order) hold, in that order, the samples which the
  posterior of r drew for the configurations at those positions, however the resource
  levels are interleaved. Every input row lies at a position of its own resource
  (\<open>flatnonzero_eq_member\<close>).
\<close>

theorem sample_marginals_rows_at_original_positions:
  assumes ok: "list_all (decode_row_ok (resource_attr_range self)) test_features"
    and known: "\<forall>r\<in>set (resource_column test_features). map_of (states self) r \<noteq> None"
    and iter: "set (set_iter (resource_column test_features)) = set (resource_column test_features)
               \<and> distinct (set_iter (resource_column test_features))"
    and contract: "\<forall>(r, st)\<in>set (states self). \<forall>xs n g.
                     length (fst (gp_sample_marginals st xs n g)) = length xs"
  shows "\<exists>samples g'.
           sample_marginals set_iter self test_features num_samples random_state
             = Inr (samples, g')
           \<and> length samples = length test_features
           \<and> (\<forall>r\<in>set (resource_column test_features). \<exists>g0.
                \<forall>j<length (flatnonzero_eq (resource_column test_features) r).
                  samples ! (flatnonzero_eq (resource_column test_features) r ! j)
                    = fst (gp_sample_marginals (the (map_of (states self) r))
                             (map (\<lambda>i. config_columns test_features ! i)
                                (flatnonzero_eq (resource_column test_features) r))
                             num_samples g0) ! j)"
proof -
  define rs where "rs = resource_column test_features"
  define fs where "fs = config_columns test_features"
  define R where "R = flatnonzero_eq rs"
  define F where "F = (\<lambda>r. map (\<lambda>i. fs ! i) (R r))"
  define n where "n = length test_features"
  define zeros :: "real list list"
    where "zeros = replicate n (replicate (row_size (num_fantasies self) num_samples) 0)"
  have dec: "decode_extended_features test_features (resource_attr_range self) = Inr (fs, rs)"
    using decode_ok[OF ok] by (simp add: rs_def fs_def)
  have len: "length rs = n" "length fs = n" by (simp_all add: rs_def fs_def n_def)
  have split: "split_features set_iter self test_features True
                 = Inr (map (\<lambda>r. (r, F r, R r)) (set_iter rs))"
    unfolding split_features_def dec F_def R_def
    using known iter len by (simp add: split_features_loop_ok rs_def)
  have st: "\<forall>r\<in>set (set_iter rs). \<exists>st. map_of (states self) r = Some st
               \<and> (\<forall>g. length (fst (gp_sample_marginals st (F r) num_samples g)) = length (F r))"
  proof
    fix r assume "r \<in> set (set_iter rs)"
    with iter known obtain st where s: "map_of (states self) r = Some st"
      by (auto simp: rs_def)
    then have "(r, st) \<in> set (states self)" by (rule map_of_SomeD)
    with contract s show "\<exists>st. map_of (states self) r = Some st
               \<and> (\<forall>g. length (fst (gp_sample_marginals st (F r) num_samples g)) = length (F r))"
      by auto
  qed
  have "\<exists>samples' g'.
           sample_marginals_loop self num_samples (map (\<lambda>r. (r, F r, R r)) (set_iter rs)) zeros
               random_state = Inr (samples', g')
           \<and> length samples' = n
           \<and> (\<forall>i. (\<forall>r\<in>set (set_iter rs). i \<notin> set (R r)) \<longrightarrow> samples' ! i = zeros ! i)
           \<and> (\<forall>r\<in>set (set_iter rs). \<exists>g0. \<forall>j<length (R r).
                 samples' ! (R r ! j)
                   = fst (gp_sample_marginals (the (map_of (states self) r)) (F r) num_samples g0) ! j)"
  proof (rule sample_marginals_loop_ok[where n = n])
    show "\<And>r. distinct (R r)" by (simp add: R_def flatnonzero_eq_distinct)
    show "\<And>r i. i \<in> set (R r) \<Longrightarrow> i < n"
      using len by (auto simp: R_def dest: flatnonzero_eq_bound)
    show "\<And>r r'. r \<noteq> r' \<Longrightarrow> set (R r) \<inter> set (R r') = {}"
      by (simp add: R_def flatnonzero_eq_disjoint)
    show "\<And>r. length (F r) = length (R r)" by (simp add: F_def)
    show "\<forall>r\<in>set (set_iter rs). \<exists>st. map_of (states self) r = Some st
               \<and> (\<forall>g. length (fst (gp_sample_marginals st (F r) num_samples g)) = length (F r))"
      by (rule st)
    show "distinct (set_iter rs)" using iter by (simp add: rs_def)
    show "length zeros = n" by (simp add: zeros_def)
  qed
  then show ?thesis
    using iter
    by (simp add: sample_marginals_def split Let_def zeros_def[symmetric] n_def[symmetric]
        rs_def[symmetric] fs_def[symmetric] F_def R_def) blast
qed

lemma example_upt4: "[0..<4] = [0, 1, 2, 3]" by (simp add: upt_rec)

lemma example_marginals_run:
  "sample_marginals remdups example_state [[0, 1], [1, 3], [2, 1], [3, 3]] 2 0
     = Inr ([[1, 1], [4, 4], [3, 3], [6, 6]], 2)"
  by (simp add: sample_marginals_def split_features_def decode_extended_features_def
      decode_row_ok_def example_state_def example_gp_def flatnonzero_eq_def take_rows_def
      set_rows_def row_size_def example_upt4 numeral_2_eq_2)

theorem sample_marginals_rows_at_original_positions_witness:
  "list_all (decode_row_ok (resource_attr_range example_state)) [[0, 1], [1, 3], [2, 1], [3, 3]]
   \<and> (\<exists>samples g'.
         sample_marginals remdups example_state [[0, 1], [1, 3], [2, 1], [3, 3]] 2 0
           = Inr (samples, g')
         \<and> length samples = length [[0, 1], [1, 3], [2, 1], [3, 3 :: real]])
   \<and> sample_marginals remdups example_state [[0, 1], [1, 3], [2, 1], [3, 3]] 2 0
       = Inr ([[1, 1], [4, 4], [3, 3], [6, 6]], 2)"
proof -
  have h1: "list_all (decode_row_ok (resource_attr_range example_state))
              [[0, 1], [1, 3], [2, 1], [3, 3]]"
    by (simp add: example_state_def decode_row_ok_def)
  have h2: "\<forall>r\<in>set (resource_column [[0, 1], [1, 3], [2, 1], [3, 3]]).
              map_of (states example_state) r \<noteq> None"
    by (simp add: example_state_def)
  have h3: "set (remdups (resource_column [[0, 1], [1, 3], [2, 1], [3, 3]]))
              = set (resource_column [[0, 1], [1, 3], [2, 1], [3, 3]])
            \<and> distinct (remdups (resource_column [[0, 1], [1, 3], [2, 1], [3, 3]]))"
    by (simp only: set_remdups distinct_remdups simp_thms)
  have h4: "\<forall>(r, st)\<in>set (states example_state). \<forall>xs n g.
              length (fst (gp_sample_marginals st xs n (g :: nat))) = length xs"
    by (simp add: example_state_def example_gp_def)
  show ?thesis
    using h1 h2 sample_marginals_rows_at_original_positions [where set_iter = remdups, OF h1 h2 h3 h4, of 2 0]
    by (simp only: example_marginals_run) blast
qed

lemma sample_joint_loop_ok:
  assumes dR: "\<And>r. distinct (R r)"
    and bR: "\<And>r i. i \<in> set (R r) \<Longrightarrow> i < n"
    and disj: "\<And>r r'. r \<noteq> r' \<Longrightarrow> set (R r) \<inter> set (R r') = {}"
    and lF: "\<And>r. length (F r) = length (R r)"
    and st: "\<forall>r\<in>set order.
               (\<forall>st. map_of (states self) r = Some st \<longrightarrow>
                  (\<forall>g. length (fst (gp_sample_joint st (F r) ns g)) = length (F r)))
               \<and> (map_of (states self) r = None \<longrightarrow> map_of (mean self) r \<noteq> None)"
    and dist: "distinct order"
    and len: "length samples = n"
    and nf1: "num_fantasies self = 1"
  shows "\<exists>samples' g'.
           sample_joint_loop self ns (map (\<lambda>r. (r, F r, R r)) order) samples g
             = Inr (samples', g')
           \<and> length samples' = n
           \<and> (\<forall>i. (\<forall>r\<in>set order. i \<notin> set (R r)) \<longrightarrow> samples' ! i = samples ! i)
           \<and> (\<forall>r\<in>set order. \<forall>st. map_of (states self) r = Some st \<longrightarrow>
                 (\<exists>g0. \<forall>j<length (R r).
                    samples' ! (R r ! j) = fst (gp_sample_joint st (F r) ns g0) ! j))
           \<and> (\<forall>r\<in>set order. map_of (states self) r = None \<longrightarrow>
                 (\<forall>j<length (R r).
                    samples' ! (R r ! j)
                      = replicate (row_size (num_fantasies self) ns)
                          (the (map_of (mean self) r) (F r ! j))))"
  using st dist len
proof (induction order arbitrary: samples g)
  case Nil
  then show ?case by simp
next
  case (Cons r order)
  define k where "k = row_size (num_fantasies self) ns"
  define vals where "vals = (case map_of (states self) r of
        Some st \<Rightarrow> fst (gp_sample_joint st (F r) ns g)
      | None \<Rightarrow> map (\<lambda>x. replicate k (the (map_of (mean self) r) x)) (F r))"
  define g1 where "g1 = (case map_of (states self) r of
        Some st \<Rightarrow> snd (gp_sample_joint st (F r) ns g) | None \<Rightarrow> g)"
  have step: "sample_joint_loop self ns ((r, F r, R r) # rest) s g
                = (case set_rows s (R r) vals of Inl e \<Rightarrow> Inl e
                   | Inr s' \<Rightarrow> sample_joint_loop self ns rest s' g1)" for rest s
  proof (cases "map_of (states self) r")
    case None
    with Cons.prems(1) obtain mu where mu: "map_of (mean self) r = Some mu" by auto
    show ?thesis
      by (simp add: None mu vals_def g1_def k_def broadcast_mean_def nf1 row_size_def comp_def
          split: sum.split)
  next
    case (Some st)
    show ?thesis by (simp add: Some vals_def g1_def case_prod_unfold split: sum.split)
  qed
  have lv: "length vals = length (R r)"
  proof (cases "map_of (states self) r")
    case None
    then show ?thesis by (simp add: vals_def lF)
  next
    case (Some st)
    with Cons.prems(1) have "length (fst (gp_sample_joint st (F r) ns g)) = length (F r)"
      by simp
    with Some show ?thesis by (simp add: vals_def lF)
  qed
  have vsome: "vals = fst (gp_sample_joint st (F r) ns g)"
    if "map_of (states self) r = Some st" for st
    using that by (simp add: vals_def)
  have vnone: "vals = map (\<lambda>x. replicate k (the (map_of (mean self) r) x)) (F r)"
    if "map_of (states self) r = None"
    using that by (simp add: vals_def)
  have "\<forall>i\<in>set (R r). i < length samples" using bR Cons.prems(3) by simp
  from set_rows_ok[OF dR this lv] obtain s1 where
    s1: "set_rows samples (R r) vals = Inr s1" "length s1 = length samples"
        "\<forall>j<length (R r). s1 ! (R r ! j) = vals ! j"
        "\<forall>i. i \<notin> set (R r) \<longrightarrow> s1 ! i = samples ! i" by blast
  from Cons.prems have p: "\<forall>r\<in>set order.
               (\<forall>st. map_of (states self) r = Some st \<longrightarrow>
                  (\<forall>g. length (fst (gp_sample_joint st (F r) ns g)) = length (F r)))
               \<and> (map_of (states self) r = None \<longrightarrow> map_of (mean self) r \<noteq> None)"
     "distinct order" "length s1 = n" "r \<notin> set order" using s1(2) by simp_all
  from Cons.IH[OF p(1,2,3), of g1] obtain samples' g' where
    ih: "sample_joint_loop self ns (map (\<lambda>r. (r, F r, R r)) order) s1 g1 = Inr (samples', g')"
        "length samples' = n"
        "\<forall>i. (\<forall>r\<in>set order. i \<notin> set (R r)) \<longrightarrow> samples' ! i = s1 ! i"
        "\<forall>r\<in>set order. \<forall>st. map_of (states self) r = Some st \<longrightarrow>
                 (\<exists>g0. \<forall>j<length (R r).
                    samples' ! (R r ! j) = fst (gp_sample_joint st (F r) ns g0) ! j)"
        "\<forall>r\<in>set order. map_of (states self) r = None \<longrightarrow>
                 (\<forall>j<length (R r).
                    samples' ! (R r ! j)
                      = replicate (row_size (num_fantasies self) ns)
                          (the (map_of (mean self) r) (F r ! j)))"
    by blast
  have "sample_joint_loop self ns ((r, F r, R r) # map (\<lambda>r. (r, F r, R r)) order) samples g
               = Inr (samples', g')"
    by (simp only: step s1(1) sum.case ih(1))
  then have run: "sample_joint_loop self ns (map (\<lambda>r. (r, F r, R r)) (r # order)) samples g
               = Inr (samples', g')"
    by (simp only: list.map)
  have frame: "\<forall>i. (\<forall>r'\<in>set (r # order). i \<notin> set (R r')) \<longrightarrow> samples' ! i = samples ! i"
    using ih(3) s1(4) by simp
  have own: "\<forall>j<length (R r). samples' ! (R r ! j) = vals ! j"
  proof (intro allI impI)
    fix j assume j: "j < length (R r)"
    then have m: "R r ! j \<in> set (R r)" by simp
    have "\<forall>r'\<in>set order. R r ! j \<notin> set (R r')"
    proof
      fix r' assume "r' \<in> set order"
      with p(4) have "r \<noteq> r'" by auto
      from disj[OF this] m show "R r ! j \<notin> set (R r')" by auto
    qed
    with ih(3) have "samples' ! (R r ! j) = s1 ! (R r ! j)" by simp
    with s1(3) j show "samples' ! (R r ! j) = vals ! j" by simp
  qed
  have own_some: "\<forall>st. map_of (states self) r = Some st \<longrightarrow>
                 (\<exists>g0. \<forall>j<length (R r).
                    samples' ! (R r ! j) = fst (gp_sample_joint st (F r) ns g0) ! j)"
  proof (intro allI impI)
    fix st assume "map_of (states self) r = Some st"
    from vsome[OF this] own
    show "\<exists>g0. \<forall>j<length (R r).
            samples' ! (R r ! j) = fst (gp_sample_joint st (F r) ns g0) ! j"
      by (intro exI[of _ g]) simp
  qed
  have own_none: "map_of (states self) r = None \<longrightarrow>
                 (\<forall>j<length (R r).
                    samples' ! (R r ! j)
                      = replicate (row_size (num_fantasies self) ns)
                          (the (map_of (mean self) r) (F r ! j)))"
  proof (intro allI impI)
    fix j assume n: "map_of (states self) r = None" and j: "j < length (R r)"
    from own j have "samples' ! (R r ! j) = vals ! j" by simp
    also have "\<dots> = replicate k (the (map_of (mean self) r) (F r ! j))"
      using vnone[OF n] j lF by simp
    finally show "samples' ! (R r ! j)
                      = replicate (row_size (num_fantasies self) ns)
                          (the (map_of (mean self) r) (F r ! j))"
      by (simp add: k_def)
  qed
  have all_some: "\<forall>r'\<in>set (r # order). \<forall>st. map_of (states self) r' = Some st \<longrightarrow>
                 (\<exists>g0. \<forall>j<length (R r').
                    samples' ! (R r' ! j) = fst (gp_sample_joint st (F r') ns g0) ! j)"
    using own_some ih(4) by simp
  have all_none: "\<forall>r'\<in>set (r # order). map_of (states self) r' = None \<longrightarrow>
                 (\<forall>j<length (R r').
                    samples' ! (R r' ! j)
                      = replicate (row_size (num_fantasies self) ns)
                          (the (map_of (mean self) r') (F r' ! j)))"
    using own_none ih(5) by simp
  show ?case
    by (intro exI[of _ samples'] exI[of _ g'] conjI run ih(2) frame all_some all_none)
qed

text \<open>
  With one fantasy, \<open>sample_joint\<close> does what its docstring says. Take a batch whose
  resources are in range and each have a posterior or, failing that, a mean function;
  \<open>set_iter\<close> enumerates the resources of the batch once each, and a per-resource
  \<open>sample_joint\<close> returns one row of samples per feature row. Then the result has one
  row per input row; a row whose resource has no posterior holds the prior mean of that
  resource at the configuration of the row, in every sample, and the rows at the positions
  of a resource with posterior hold that posterior's joint sample.
\<close>

lemma sample_joint_prior_mean_one_fantasy:
  assumes ok: "list_all (decode_row_ok (resource_attr_range self)) test_features"
    and iter: "set (set_iter (resource_column test_features)) = set (resource_column test_features)
               \<and> distinct (set_iter (resource_column test_features))"
    and supported: "\<forall>r\<in>set (resource_column test_features).
                      map_of (states self) r = None \<longrightarrow> map_of (mean self) r \<noteq> None"
    and contract: "\<forall>(r, st)\<in>set (states self). \<forall>xs n g.
                     length (fst (gp_sample_joint st xs n g)) = length xs"
    and nf1: "num_fantasies self = 1"
  shows "\<exists>samples g'.
           sample_joint set_iter self test_features num_samples random_state = Inr (samples, g')
           \<and> length samples = length test_features
           \<and> (\<forall>i<length test_features.
                 map_of (states self) (resource_column test_features ! i) = None \<longrightarrow>
                 samples ! i
                   = replicate (row_size (num_fantasies self) num_samples)
                       (the (map_of (mean self) (resource_column test_features ! i))
                          (config_columns test_features ! i)))
           \<and> (\<forall>r\<in>set (resource_column test_features). \<forall>st.
                 map_of (states self) r = Some st \<longrightarrow>
                 (\<exists>g0. \<forall>j<length (flatnonzero_eq (resource_column test_features) r).
                    samples ! (flatnonzero_eq (resource_column test_features) r ! j)
                      = fst (gp_sample_joint st
                               (map (\<lambda>i. config_columns test_features ! i)
                                  (flatnonzero_eq (resource_column test_features) r))
                               num_samples g0) ! j))"
proof -
  define rs where "rs = resource_column test_features"
  define fs where "fs = config_columns test_features"
  define R where "R = flatnonzero_eq rs"
  define F where "F = (\<lambda>r. map (\<lambda>i. fs ! i) (R r))"
  define n where "n = length test_features"
  define zeros :: "real list list"
    where "zeros = replicate n (replicate (row_size (num_fantasies self) num_samples) 0)"
  have dec: "decode_extended_features test_features (resource_attr_range self) = Inr (fs, rs)"
    using decode_ok[OF ok] by (simp add: rs_def fs_def)
  have len: "length rs = n" "length fs = n" by (simp_all add: rs_def fs_def n_def)
  have split: "split_features set_iter self test_features False
                 = Inr (map (\<lambda>r. (r, F r, R r)) (set_iter rs))"
    unfolding split_features_def dec F_def R_def
    using len by (simp add: split_features_loop_ok rs_def)
  have st: "\<forall>r\<in>set (set_iter rs).
               (\<forall>st. map_of (states self) r = Some st \<longrightarrow>
                  (\<forall>g. length (fst (gp_sample_joint st (F r) num_samples g)) = length (F r)))
               \<and> (map_of (states self) r = None \<longrightarrow> map_of (mean self) r \<noteq> None)"
  proof (intro ballI conjI allI impI)
    fix r st g assume "r \<in> set (set_iter rs)" and s: "map_of (states self) r = Some st"
    from s have "(r, st) \<in> set (states self)" by (rule map_of_SomeD)
    with contract show "length (fst (gp_sample_joint st (F r) num_samples g)) = length (F r)"
      by auto
  next
    fix r assume "r \<in> set (set_iter rs)" and "map_of (states self) r = None"
    with iter supported show "map_of (mean self) r \<noteq> None" unfolding rs_def by blast
  qed
  have "\<exists>samples' g'.
           sample_joint_loop self num_samples (map (\<lambda>r. (r, F r, R r)) (set_iter rs)) zeros
               random_state = Inr (samples', g')
           \<and> length samples' = n
           \<and> (\<forall>i. (\<forall>r\<in>set (set_iter rs). i \<notin> set (R r)) \<longrightarrow> samples' ! i = zeros ! i)
           \<and> (\<forall>r\<in>set (set_iter rs). \<forall>st. map_of (states self) r = Some st \<longrightarrow>
                 (\<exists>g0. \<forall>j<length (R r).
                    samples' ! (R r ! j) = fst (gp_sample_joint st (F r) num_samples g0) ! j))
           \<and> (\<forall>r\<in>set (set_iter rs). map_of (states self) r = None \<longrightarrow>
                 (\<forall>j<length (R r).
                    samples' ! (R r ! j)
                      = replicate (row_size (num_fantasies self) num_samples)
                          (the (map_of (mean self) r) (F r ! j))))"
  proof (rule sample_joint_loop_ok[where n = n])
    show "\<And>r. distinct (R r)" by (simp add: R_def flatnonzero_eq_distinct)
    show "\<And>r i. i \<in> set (R r) \<Longrightarrow> i < n"
      using len by (auto simp: R_def dest: flatnonzero_eq_bound)
    show "\<And>r r'. r \<noteq> r' \<Longrightarrow> set (R r) \<inter> set (R r') = {}"
      by (simp add: R_def flatnonzero_eq_disjoint)
    show "\<And>r. length (F r) = length (R r)" by (simp add: F_def)
    show "\<forall>r\<in>set (set_iter rs).
               (\<forall>st. map_of (states self) r = Some st \<longrightarrow>
                  (\<forall>g. length (fst (gp_sample_joint st (F r) num_samples g)) = length (F r)))
               \<and> (map_of (states self) r = None \<longrightarrow> map_of (mean self) r \<noteq> None)"
      by (rule st)
    show "distinct (set_iter rs)" using iter by (simp add: rs_def)
    show "length zeros = n" by (simp add: zeros_def)
    show "num_fantasies self = 1" by (rule nf1)
  qed
  then obtain samples g' where
    run: "sample_joint_loop self num_samples (map (\<lambda>r. (r, F r, R r)) (set_iter rs)) zeros
               random_state = Inr (samples, g')"
    and ls: "length samples = n"
    and some: "\<forall>r\<in>set (set_iter rs). \<forall>st. map_of (states self) r = Some st \<longrightarrow>
                 (\<exists>g0. \<forall>j<length (R r).
                    samples ! (R r ! j) = fst (gp_sample_joint st (F r) num_samples g0) ! j)"
    and none: "\<forall>r\<in>set (set_iter rs). map_of (states self) r = None \<longrightarrow>
                 (\<forall>j<length (R r).
                    samples ! (R r ! j)
                      = replicate (row_size (num_fantasies self) num_samples)
                          (the (map_of (mean self) r) (F r ! j)))"
    by blast
  have eq: "sample_joint set_iter self test_features num_samples random_state
              = Inr (samples, g')"
    by (simp add: sample_joint_def split Let_def zeros_def[symmetric] n_def[symmetric] run)
  have rows: "\<forall>i<n. map_of (states self) (rs ! i) = None \<longrightarrow>
                 samples ! i
                   = replicate (row_size (num_fantasies self) num_samples)
                       (the (map_of (mean self) (rs ! i)) (fs ! i))"
  proof (intro allI impI)
    fix i assume i: "i < n" and m: "map_of (states self) (rs ! i) = None"
    from i len have "i \<in> set (R (rs ! i))" by (simp add: R_def flatnonzero_eq_member)
    then obtain j where j: "j < length (R (rs ! i))" "R (rs ! i) ! j = i"
      by (auto simp: in_set_conv_nth)
    from i len have "rs ! i \<in> set rs" by simp
    with iter have "rs ! i \<in> set (set_iter rs)" unfolding rs_def by blast
    with none m j(1) have "samples ! (R (rs ! i) ! j)
            = replicate (row_size (num_fantasies self) num_samples)
                (the (map_of (mean self) (rs ! i)) (F (rs ! i) ! j))" by blast
    with j show "samples ! i
                   = replicate (row_size (num_fantasies self) num_samples)
                       (the (map_of (mean self) (rs ! i)) (fs ! i))"
      by (simp add: F_def)
  qed
  from iter have "set (set_iter rs) = set rs" unfolding rs_def by blast
  with some have some': "\<forall>r\<in>set rs. \<forall>st. map_of (states self) r = Some st \<longrightarrow>
                 (\<exists>g0. \<forall>j<length (R r).
                    samples ! (R r ! j) = fst (gp_sample_joint st (F r) num_samples g0) ! j)"
    by simp
  show ?thesis
    using eq ls rows some'
    unfolding n_def rs_def fs_def F_def R_def by blast
qed

lemma example_joint_run:
  "sample_joint remdups example_state [[0, 1], [1, 9], [2, 3], [3, 9]] 2 0
     = Inr ([[- 1, - 1], [6, 6], [- 1, - 1], [8, 8]], 2)"
  by (simp add: sample_joint_def split_features_def decode_extended_features_def
      decode_row_ok_def example_state_def example_gp_def example_mean_def flatnonzero_eq_def
      take_rows_def set_rows_def row_size_def broadcast_mean_def example_upt4 numeral_2_eq_2)

lemma sample_joint_prior_mean_one_fantasy_example:
  "list_all (decode_row_ok (resource_attr_range example_state)) [[0, 1], [1, 9], [2, 3], [3, 9]]
   \<and> map_of (states example_state) 9 = None
   \<and> (\<exists>samples g'.
         sample_joint remdups example_state [[0, 1], [1, 9], [2, 3], [3, 9]] 2 0
           = Inr (samples, g')
         \<and> length samples = length [[0, 1], [1, 9], [2, 3], [3, 9 :: real]])
   \<and> sample_joint remdups example_state [[0, 1], [1, 9], [2, 3], [3, 9]] 2 0
       = Inr ([[- 1, - 1], [6, 6], [- 1, - 1], [8, 8]], 2)"
proof -
  have h1: "list_all (decode_row_ok (resource_attr_range example_state))
              [[0, 1], [1, 9], [2, 3], [3, 9]]"
    by (simp add: example_state_def decode_row_ok_def)
  have h2: "set (remdups (resource_column [[0, 1], [1, 9], [2, 3], [3, 9]]))
              = set (resource_column [[0, 1], [1, 9], [2, 3], [3, 9]])
            \<and> distinct (remdups (resource_column [[0, 1], [1, 9], [2, 3], [3, 9]]))"
    by (simp only: set_remdups distinct_remdups simp_thms)
  have h3: "\<forall>r\<in>set (resource_column [[0, 1], [1, 9], [2, 3], [3, 9]]).
              map_of (states example_state) r = None \<longrightarrow> map_of (mean example_state) r \<noteq> None"
    by (simp add: example_state_def example_mean_def)
  have h4: "\<forall>(r, st)\<in>set (states example_state). \<forall>xs n g.
              length (fst (gp_sample_joint st xs n (g :: nat))) = length xs"
    by (simp add: example_state_def example_gp_def)
  have h5: "map_of (states example_state) 9 = None" by (simp add: example_state_def)
  have h6: "num_fantasies example_state = 1" by (simp add: example_state_def)
  show ?thesis
    using h1 h5 sample_joint_prior_mean_one_fantasy
            [where set_iter = remdups, OF h1 h2 h3 h4 h6, of 2 0]
    by (simp only: example_joint_run) blast
qed

lemma example_upt23: "[0..<2] = [0, 1]" "[0..<3] = [0, 1, 2]"
  by (simp_all add: upt_rec)

text \<open>
  Claim C2. The claim, and the docstring of \<open>sample_joint\<close> ("for such entries, we
  return the prior mean"), ask that every row whose resource has no posterior holds the
  prior mean of its own configuration. On a posterior state with two fantasies the
  assignment of the column of means into the block of shape (k, 2, num_samples) does not
  do that. Here resource 9 has a mean function (5 plus the sum of the configuration) and
  no posterior. With three rows at resource 9 the call raises \<open>ValueError\<close>. With two
  rows, of prior means 6 and 7, both rows come back as 6, 6, 7, 7: fantasy 0 holds the mean
  of the first row and fantasy 1 the mean of the second, in both rows, where the claim asks
  for 6, 6, 6, 6 and 7, 7, 7, 7.
\<close>

theorem sample_joint_prior_mean_fails_with_fantasies:
  "sample_joint remdups example_state_two_fantasies [[1, 9], [2, 9], [3, 9]] 2 0
     = Inl ValueError
   \<and> sample_joint remdups example_state_two_fantasies [[1, 9], [2, 9]] 2 0
     = Inr ([[6, 6, 7, 7], [6, 6, 7, 7]], 0)"
  by (simp add: sample_joint_def split_features_def decode_extended_features_def
      decode_row_ok_def example_state_two_fantasies_def example_gp_def example_mean_def
      flatnonzero_eq_def take_rows_def set_rows_def row_size_def broadcast_mean_def
      example_upt23 numeral_2_eq_2)

lemma zip_butlast_tl_Cons:
  "zip (butlast (a # b # xs)) (tl (a # b # xs)) = (a, b) # zip (butlast (b # xs)) (tl (b # xs))"
  by simp

lemma consecutive_sorted:
  "sorted_wrt (<) xs \<Longrightarrow> (s, e) \<in> set (zip (butlast xs) (tl xs)) \<Longrightarrow>
   s < e \<and> s \<in> set xs \<and> e \<in> set xs \<and> (\<forall>x\<in>set xs. x \<le> s \<or> e \<le> (x::nat))"
proof (induction xs rule: induct_list012)
  case 1
  then show ?case by simp
next
  case (2 x)
  then show ?case by simp
next
  case (3 a b xs)
  from "3.prems"(2) have "(s, e) = (a, b) \<or> (s, e) \<in> set (zip (butlast (b # xs)) (tl (b # xs)))"
    by (simp only: zip_butlast_tl_Cons set_ConsD set_simps insert_iff)
  then show ?case
  proof
    assume "(s, e) = (a, b)"
    with "3.prems"(1) show ?thesis by fastforce
  next
    assume m: "(s, e) \<in> set (zip (butlast (b # xs)) (tl (b # xs)))"
    from "3.prems"(1) have sw: "sorted_wrt (<) (b # xs)" by simp
    from "3.IH"(2)[OF sw m] have ih: "s < e" "s \<in> set (b # xs)" "e \<in> set (b # xs)"
      "\<forall>x\<in>set (b # xs). x \<le> s \<or> e \<le> x" by auto
    from "3.prems"(1) ih(2) have "a < s" by auto
    with ih show ?thesis by auto
  qed
qed

lemma change_positions_sorted: "rs \<noteq> [] \<Longrightarrow> sorted_wrt (<) (change_positions rs)"
proof -
  assume ne: "rs \<noteq> []"
  let ?M = "map (\<lambda>i. i + 1) (filter (\<lambda>i. rs ! i \<noteq> rs ! (i + 1)) [0..<length rs - 1])"
  have m: "sorted_wrt (<) ?M"
    by (simp add: sorted_wrt_map sorted_wrt_filter)
  have b: "\<forall>x\<in>set ?M. 0 < x \<and> x < length rs" using ne by auto
  show ?thesis
    unfolding change_positions_def using m b ne
    by (auto simp: sorted_wrt_append)
qed

lemma change_positions_member:
  "n < length rs - 1 \<Longrightarrow> rs ! n \<noteq> rs ! (n + 1) \<Longrightarrow> Suc n \<in> set (change_positions rs)"
  by (simp add: change_positions_def image_iff)

lemma change_positions_le: "x \<in> set (change_positions rs) \<Longrightarrow> x \<le> length rs"
  by (auto simp: change_positions_def)

lemma change_positions_runs:
  assumes ne: "rs \<noteq> []"
    and m: "(s, e) \<in> set (zip (butlast (change_positions rs)) (tl (change_positions rs)))"
  shows "s < e \<and> e \<le> length rs \<and> (\<forall>i. s \<le> i \<and> i < e \<longrightarrow> rs ! i = rs ! s)"
proof -
  from consecutive_sorted[OF change_positions_sorted[OF ne] m]
  have c: "s < e" "e \<in> set (change_positions rs)"
    "\<forall>x\<in>set (change_positions rs). x \<le> s \<or> e \<le> x" by auto
  from c(2) have le: "e \<le> length rs" by (rule change_positions_le)
  have run: "rs ! i = rs ! s" if "s \<le> i" "i < e" for i
    using that
  proof (induction i rule: dec_induct)
    case base
    show ?case by simp
  next
    case (step n)
    from step have eq: "rs ! n = rs ! s" by simp
    have "Suc n \<notin> set (change_positions rs)"
      using c(3) step by (metis Suc_leD le_imp_less_Suc not_less_eq_eq not_less)
    moreover have "n < length rs - 1" using step le by simp
    ultimately have "rs ! n = rs ! (n + 1)" using change_positions_member by blast
    with eq show ?case by simp
  qed
  from c(1) le run show ?thesis by blast
qed

lemma slice_nth: "b \<le> length fs \<Longrightarrow> take (b - a) (drop a fs) = map (\<lambda>i. fs ! i) [a..<b]"
  by (rule nth_equalityI) auto

lemma upt_split: "a \<le> b \<Longrightarrow> b \<le> c \<Longrightarrow> [a..<b] @ [b..<c] = [a..<(c::nat)]"
  by (metis le_Suc_ex upt_add_eq_append)


lemma predict_groups_chain:
  assumes K: "\<forall>r\<in>set rs. \<exists>st. map_of (states self) r = Some st
                \<and> (\<forall>xs. gp_predict st xs = (map (\<lambda>x. hd (fst (gp_predict st [x]))) xs,
                                          map (\<lambda>x. hd (snd (gp_predict st [x]))) xs))"
    and len: "length fs = length rs"
  shows "cp \<noteq> [] \<Longrightarrow>
    \<forall>(s, e)\<in>set (zip (butlast cp) (tl cp)).
       s < e \<and> e \<le> length rs \<and> (\<forall>i. s \<le> i \<and> i < e \<longrightarrow> rs ! i = rs ! s) \<Longrightarrow>
    \<exists>out. predict_groups self fs rs (zip (butlast cp) (tl cp)) = Inr out
      \<and> hd cp \<le> last cp
      \<and> concat (map fst out)
          = map (\<lambda>i. hd (fst (gp_predict (the (map_of (states self) (rs ! i))) [fs ! i])))
              [hd cp..<last cp]
      \<and> concat (map snd out)
          = map (\<lambda>i. hd (snd (gp_predict (the (map_of (states self) (rs ! i))) [fs ! i])))
              [hd cp..<last cp]"
proof (induction cp rule: induct_list012)
  case 1
  then show ?case by simp
next
  case (2 x)
  then show ?case by simp
next
  case (3 a b xs)
  define P where "P = (\<lambda>(s, e). s < e \<and> e \<le> length rs
                          \<and> (\<forall>i. s \<le> i \<and> i < e \<longrightarrow> rs ! i = rs ! s))"
  have "\<forall>p\<in>set (zip (butlast (a # b # xs)) (tl (a # b # xs))). P p"
    unfolding P_def by (rule "3.prems"(2))
  then have all: "\<forall>p\<in>set ((a, b) # zip (butlast (b # xs)) (tl (b # xs))). P p"
    by (simp only: zip_butlast_tl_Cons)
  then have "P (a, b)" by simp
  then have ab0: "a < b \<and> b \<le> length rs \<and> (\<forall>i. a \<le> i \<and> i < b \<longrightarrow> rs ! i = rs ! a)"
    unfolding P_def case_prod_conv .
  have ab: "a < b" "b \<le> length rs" "\<And>i. a \<le> i \<Longrightarrow> i < b \<Longrightarrow> rs ! i = rs ! a"
    using ab0 by blast+
  from all have "\<forall>p\<in>set (zip (butlast (b # xs)) (tl (b # xs))). P p" by simp
  then have rest: "\<forall>(s, e)\<in>set (zip (butlast (b # xs)) (tl (b # xs))).
       s < e \<and> e \<le> length rs \<and> (\<forall>i. s \<le> i \<and> i < e \<longrightarrow> rs ! i = rs ! s)"
    unfolding P_def .
  have ne: "b # xs \<noteq> []" by simp
  from "3.IH"(2)[OF ne rest] obtain out where
    ih: "predict_groups self fs rs (zip (butlast (b # xs)) (tl (b # xs))) = Inr out"
        "hd (b # xs) \<le> last (b # xs)"
        "concat (map fst out)
          = map (\<lambda>i. hd (fst (gp_predict (the (map_of (states self) (rs ! i))) [fs ! i])))
              [hd (b # xs)..<last (b # xs)]"
        "concat (map snd out)
          = map (\<lambda>i. hd (snd (gp_predict (the (map_of (states self) (rs ! i))) [fs ! i])))
              [hd (b # xs)..<last (b # xs)]"
    by blast
  from ab have an: "a < length rs" by simp
  then have "rs ! a \<in> set rs" by simp
  with K have "\<exists>st. map_of (states self) (rs ! a) = Some st
                \<and> (\<forall>xs. gp_predict st xs = (map (\<lambda>x. hd (fst (gp_predict st [x]))) xs,
                                          map (\<lambda>x. hd (snd (gp_predict st [x]))) xs))"
    by (rule bspec)
  then obtain st where st: "map_of (states self) (rs ! a) = Some st"
    and rw0: "\<forall>xs. gp_predict st xs = (map (\<lambda>x. hd (fst (gp_predict st [x]))) xs,
                                          map (\<lambda>x. hd (snd (gp_predict st [x]))) xs)"
    by (elim exE conjE)
  have rw: "gp_predict st xs = (map (\<lambda>x. hd (fst (gp_predict st [x]))) xs,
                                map (\<lambda>x. hd (snd (gp_predict st [x]))) xs)" for xs
    using rw0 by (rule spec)
  define g where "g = gp_predict st (take (b - a) (drop a fs))"
  have sl: "take (b - a) (drop a fs) = map (\<lambda>i. fs ! i) [a..<b]"
    using ab(2) len by (simp add: slice_nth)
  have same: "the (map_of (states self) (rs ! i)) = st" if "i \<in> set [a..<b]" for i
  proof -
    from that have "a \<le> i" "i < b" by simp_all
    then have "rs ! i = rs ! a" by (rule ab(3))
    with st show ?thesis by simp
  qed
  have gv: "g = (map (\<lambda>x. hd (fst (gp_predict st [x]))) (map (\<lambda>i. fs ! i) [a..<b]),
                 map (\<lambda>x. hd (snd (gp_predict st [x]))) (map (\<lambda>i. fs ! i) [a..<b]))"
    unfolding g_def sl by (rule rw)
  have "fst g = map (\<lambda>i. hd (fst (gp_predict st [fs ! i]))) [a..<b]"
    by (simp only: gv fst_conv map_map comp_def)
  also have "\<dots> = map (\<lambda>i. hd (fst (gp_predict (the (map_of (states self) (rs ! i))) [fs ! i])))
              [a..<b]"
    by (rule map_cong[OF refl]) (simp only: same)
  finally have g1: "fst g
      = map (\<lambda>i. hd (fst (gp_predict (the (map_of (states self) (rs ! i))) [fs ! i]))) [a..<b]" .
  have "snd g = map (\<lambda>i. hd (snd (gp_predict st [fs ! i]))) [a..<b]"
    by (simp only: gv snd_conv map_map comp_def)
  also have "\<dots> = map (\<lambda>i. hd (snd (gp_predict (the (map_of (states self) (rs ! i))) [fs ! i])))
              [a..<b]"
    by (rule map_cong[OF refl]) (simp only: same)
  finally have g2: "snd g
      = map (\<lambda>i. hd (snd (gp_predict (the (map_of (states self) (rs ! i))) [fs ! i]))) [a..<b]" .
  have run: "predict_groups self fs rs (zip (butlast (a # b # xs)) (tl (a # b # xs)))
               = Inr (g # out)"
    by (simp only: zip_butlast_tl_Cons predict_groups.simps an if_True st option.case ih(1)
          sum.case g_def)
  have l: "last (a # b # xs) = last (b # xs)" by simp
  have hb: "hd (b # xs) = b" by simp
  have sp: "[a..<last (b # xs)] = [a..<b] @ [b..<last (b # xs)]"
    using ab(1) ih(2) by (simp only: hb upt_split less_imp_le)
  have c1: "concat (map fst (g # out))
          = map (\<lambda>i. hd (fst (gp_predict (the (map_of (states self) (rs ! i))) [fs ! i])))
              [a..<last (b # xs)]"
    by (simp only: sp list.map concat.simps g1 ih(3) hb map_append)
  have c2: "concat (map snd (g # out))
          = map (\<lambda>i. hd (snd (gp_predict (the (map_of (states self) (rs ! i))) [fs ! i])))
              [a..<last (b # xs)]"
    by (simp only: sp list.map concat.simps g2 ih(4) hb map_append)
  have c0: "a \<le> last (b # xs)" using ab(1) ih(2) unfolding hb by (rule less_le_trans[THEN less_imp_le])
  show ?case
    unfolding l list.sel(1)
    by (intro exI[of _ "g # out"] conjI run c0 c1 c2)
qed

lemma reverse_index_ok:
  assumes p: "sort ind = [0..<n]"
  shows "length (reverse_index ind) = n"
    and "\<And>k. k < n \<Longrightarrow> reverse_index ind ! (ind ! k) = k"
    and "\<And>i. i < n \<Longrightarrow> reverse_index ind ! i < n \<and> ind ! (reverse_index ind ! i) = i"
proof -
  note pi = sorted_indices[OF p]
  let ?zs = "map (\<lambda>k. (ind ! k, k)) [0..<length ind]"
  have eq: "reverse_index ind
              = fold (\<lambda>(i, v) acc. acc[i := v]) ?zs (replicate (length ind) 0)"
    by (simp add: reverse_index_def fold_map comp_def)
  show len: "length (reverse_index ind) = n"
    by (simp add: eq fold_update_length pi(2))
  have fz: "map fst ?zs = ind"
    by (simp add: comp_def map_nth)
  show val: "reverse_index ind ! (ind ! k) = k" if "k < n" for k
  proof -
    have a: "(ind ! k, k) \<in> set ?zs" using that pi(2) by (simp add: image_iff)
    have b: "distinct (map fst ?zs)" using pi(3) by (simp only: fz)
    have "ind ! k \<in> set ind" using that pi(2) by simp
    then have c: "ind ! k < length (replicate (length ind) (0::nat))" using pi(1,2) by simp
    show ?thesis unfolding eq by (rule fold_update_value[OF b a c])
  qed
  show "reverse_index ind ! i < n \<and> ind ! (reverse_index ind ! i) = i" if "i < n" for i
  proof -
    from that pi(1) have "i \<in> set ind" by simp
    then obtain k where k: "k < length ind" "ind ! k = i" by (auto simp: in_set_conv_nth)
    with pi(2) val[of k] have "reverse_index ind ! i = k" by simp
    with k pi(2) show ?thesis by simp
  qed
qed

lemma change_positions_ends:
  "hd (change_positions rs) = 0" "last (change_positions rs) = length rs"
  "change_positions rs \<noteq> []"
  by (simp_all add: change_positions_def)

lemma predict_rowwise:
  assumes ok: "list_all (decode_row_ok (resource_attr_range self)) test_features"
    and ne: "test_features \<noteq> []"
    and known: "\<forall>r\<in>set (resource_column test_features). map_of (states self) r \<noteq> None"
    and rowwise: "\<forall>(r, st)\<in>set (states self). \<forall>xs.
                    gp_predict st xs = (map (\<lambda>x. hd (fst (gp_predict st [x]))) xs,
                                        map (\<lambda>x. hd (snd (gp_predict st [x]))) xs)"
    and perm: "sort (argsort (resource_column test_features)) = [0..<length test_features]"
  shows "predict argsort self test_features
           = Inr (map (\<lambda>row. hd (fst (gp_predict (the (map_of (states self) \<lfloor>last row\<rfloor>))
                                        [butlast row]))) test_features,
                  map (\<lambda>row. hd (snd (gp_predict (the (map_of (states self) \<lfloor>last row\<rfloor>))
                                        [butlast row]))) test_features)"
proof -
  define rs where "rs = resource_column test_features"
  define fs where "fs = config_columns test_features"
  define n where "n = length test_features"
  define M where "M = (\<lambda>r x. hd (fst (gp_predict (the (map_of (states self) r)) [x])))"
  define V where "V = (\<lambda>r x. hd (snd (gp_predict (the (map_of (states self) r)) [x])))"
  have dec: "decode_extended_features test_features (resource_attr_range self) = Inr (fs, rs)"
    using decode_ok[OF ok] by (simp add: rs_def fs_def)
  have len: "length rs = n" "length fs = n" by (simp_all add: rs_def fs_def n_def)
  have rsi: "rs ! i = \<lfloor>last (test_features ! i)\<rfloor>" if "i < n" for i
    using that by (simp add: rs_def n_def)
  have fsi: "fs ! i = butlast (test_features ! i)" if "i < n" for i
    using that by (simp add: fs_def n_def)
  have K: "\<forall>r\<in>set rs. \<exists>st. map_of (states self) r = Some st
             \<and> (\<forall>xs. gp_predict st xs = (map (\<lambda>x. hd (fst (gp_predict st [x]))) xs,
                                       map (\<lambda>x. hd (snd (gp_predict st [x]))) xs))"
  proof
    fix r assume "r \<in> set rs"
    with known obtain st where s: "map_of (states self) r = Some st"
      unfolding rs_def by blast
    then have "(r, st) \<in> set (states self)" by (rule map_of_SomeD)
    with rowwise have "\<forall>xs. gp_predict st xs = (map (\<lambda>x. hd (fst (gp_predict st [x]))) xs,
                                       map (\<lambda>x. hd (snd (gp_predict st [x]))) xs)"
      by (rule_tac bspec[where x = "(r, st)", of _ "\<lambda>p. case p of (r, st) \<Rightarrow> _ st", simplified])
         (simp_all only:)
    with s show "\<exists>st. map_of (states self) r = Some st
             \<and> (\<forall>xs. gp_predict st xs = (map (\<lambda>x. hd (fst (gp_predict st [x]))) xs,
                                       map (\<lambda>x. hd (snd (gp_predict st [x]))) xs))"
      by (intro exI conjI)
  qed
  have goal: "predict argsort self test_features
                = Inr (map (\<lambda>i. M (rs ! i) (fs ! i)) [0..<n], map (\<lambda>i. V (rs ! i) (fs ! i)) [0..<n])"
  proof (cases "length (remdups rs) = 1")
    case True
    from remdups_one[OF True] have all0: "set rs = {rs ! 0}" .
    from ne have "0 < n" by (simp add: n_def)
    then have "rs ! 0 \<in> set rs" using len by simp
    with K have "\<exists>st. map_of (states self) (rs ! 0) = Some st
             \<and> (\<forall>xs. gp_predict st xs = (map (\<lambda>x. hd (fst (gp_predict st [x]))) xs,
                                       map (\<lambda>x. hd (snd (gp_predict st [x]))) xs))"
      by (rule bspec)
    then obtain st where st: "map_of (states self) (rs ! 0) = Some st"
      and rw0: "\<forall>xs. gp_predict st xs = (map (\<lambda>x. hd (fst (gp_predict st [x]))) xs,
                                       map (\<lambda>x. hd (snd (gp_predict st [x]))) xs)"
      by (elim exE conjE)
    have same: "rs ! i = rs ! 0" if "i < n" for i
    proof -
      from that len have "rs ! i \<in> set rs" by simp
      with all0 show ?thesis by blast
    qed
    have run: "predict argsort self test_features = Inr (gp_predict st fs)"
      by (simp only: predict_def dec sum.case case_prod_conv True if_True st option.case simp_thms)
    have gv: "gp_predict st fs = (map (\<lambda>x. hd (fst (gp_predict st [x]))) fs,
                                  map (\<lambda>x. hd (snd (gp_predict st [x]))) fs)"
      using rw0 by (rule spec)
    have a: "map (\<lambda>x. hd (fst (gp_predict st [x]))) fs = map (\<lambda>i. M (rs ! i) (fs ! i)) [0..<n]"
    proof (rule nth_equalityI)
      show "length (map (\<lambda>x. hd (fst (gp_predict st [x]))) fs)
              = length (map (\<lambda>i. M (rs ! i) (fs ! i)) [0..<n])" using len by simp
      fix i assume "i < length (map (\<lambda>x. hd (fst (gp_predict st [x]))) fs)"
      then have i: "i < n" using len by simp
      from same[OF i] st have "the (map_of (states self) (rs ! i)) = st" by simp
      with i len show "map (\<lambda>x. hd (fst (gp_predict st [x]))) fs ! i
              = map (\<lambda>i. M (rs ! i) (fs ! i)) [0..<n] ! i" by (simp add: M_def)
    qed
    have b: "map (\<lambda>x. hd (snd (gp_predict st [x]))) fs = map (\<lambda>i. V (rs ! i) (fs ! i)) [0..<n]"
    proof (rule nth_equalityI)
      show "length (map (\<lambda>x. hd (snd (gp_predict st [x]))) fs)
              = length (map (\<lambda>i. V (rs ! i) (fs ! i)) [0..<n])" using len by simp
      fix i assume "i < length (map (\<lambda>x. hd (snd (gp_predict st [x]))) fs)"
      then have i: "i < n" using len by simp
      from same[OF i] st have "the (map_of (states self) (rs ! i)) = st" by simp
      with i len show "map (\<lambda>x. hd (snd (gp_predict st [x]))) fs ! i
              = map (\<lambda>i. V (rs ! i) (fs ! i)) [0..<n] ! i" by (simp add: V_def)
    qed
    show ?thesis by (simp only: run gv a b)
  next
    case False
    define ind where "ind = argsort rs"
    from perm have p: "sort ind = [0..<n]" by (simp add: ind_def rs_def n_def)
    note pi = sorted_indices[OF p]
    note ri = reverse_index_ok[OF p]
    define rs' where "rs' = map (\<lambda>i. rs ! i) ind"
    define fs' where "fs' = map (\<lambda>i. fs ! i) ind"
    have t1: "take_rows fs ind = Inr fs'" unfolding fs'_def
      by (rule take_rows_ok) (use pi len in auto)
    have t2: "take_rows rs ind = Inr rs'" unfolding rs'_def
      by (rule take_rows_ok) (use pi len in auto)
    have len': "length rs' = n" "length fs' = n" by (simp_all add: rs'_def fs'_def pi(2))
    have "set rs' = (\<lambda>i. rs ! i) ` {0..<length rs}" by (simp add: rs'_def pi(1) len)
    also have "\<dots> = set rs" by (force simp: in_set_conv_nth)
    finally have set': "set rs' = set rs" .
    from ne len' have ne': "rs' \<noteq> []" by (auto simp: n_def)
    have K': "\<forall>r\<in>set rs'. \<exists>st. map_of (states self) r = Some st
             \<and> (\<forall>xs. gp_predict st xs = (map (\<lambda>x. hd (fst (gp_predict st [x]))) xs,
                                       map (\<lambda>x. hd (snd (gp_predict st [x]))) xs))"
      using K by (simp only: set')
    have chain: "\<forall>(s, e)\<in>set (zip (butlast (change_positions rs')) (tl (change_positions rs'))).
       s < e \<and> e \<le> length rs' \<and> (\<forall>i. s \<le> i \<and> i < e \<longrightarrow> rs' ! i = rs' ! s)"
    proof (rule ballI, rule case_prodI2)
      fix p s e assume "p \<in> set (zip (butlast (change_positions rs')) (tl (change_positions rs')))"
        and "p = (s, e)"
      then have "(s, e) \<in> set (zip (butlast (change_positions rs')) (tl (change_positions rs')))"
        by (simp only:)
      then show "s < e \<and> e \<le> length rs' \<and> (\<forall>i. s \<le> i \<and> i < e \<longrightarrow> rs' ! i = rs' ! s)"
        by (rule change_positions_runs[OF ne'])
    qed
    have ll: "length fs' = length rs'" by (simp only: len')
    from predict_groups_chain[OF K' ll change_positions_ends(3) chain]
    have "\<exists>out. predict_groups self fs' rs'
            (zip (butlast (change_positions rs')) (tl (change_positions rs'))) = Inr out
      \<and> concat (map fst out) = map (\<lambda>i. M (rs' ! i) (fs' ! i)) [0..<n]
      \<and> concat (map snd out) = map (\<lambda>i. V (rs' ! i) (fs' ! i)) [0..<n]"
      by (simp only: change_positions_ends len' M_def V_def) blast
    then obtain out where
      pg: "predict_groups self fs' rs'
            (zip (butlast (change_positions rs')) (tl (change_positions rs'))) = Inr out"
      and o1: "concat (map fst out) = map (\<lambda>i. M (rs' ! i) (fs' ! i)) [0..<n]"
      and o2: "concat (map snd out) = map (\<lambda>i. V (rs' ! i) (fs' ! i)) [0..<n]"
      by (elim exE conjE)
    have rb: "\<forall>j\<in>set (reverse_index ind). j < n"
    proof
      fix j assume "j \<in> set (reverse_index ind)"
      then obtain i where "i < length (reverse_index ind)" "reverse_index ind ! i = j"
        by (auto simp: in_set_conv_nth)
      with ri(1) ri(3)[of i] show "j < n" by simp
    qed
    have t3: "take_rows (concat (map fst out)) (reverse_index ind)
                = Inr (map (\<lambda>j. concat (map fst out) ! j) (reverse_index ind))"
      by (rule take_rows_ok) (use rb in \<open>simp add: o1\<close>)
    have t4: "take_rows (concat (map snd out)) (reverse_index ind)
                = Inr (map (\<lambda>j. concat (map snd out) ! j) (reverse_index ind))"
      by (rule take_rows_ok) (use rb in \<open>simp add: o2\<close>)
    have run: "predict argsort self test_features
                 = Inr (map (\<lambda>j. concat (map fst out) ! j) (reverse_index ind),
                        map (\<lambda>j. concat (map snd out) ! j) (reverse_index ind))"
      by (simp only: predict_def dec sum.case case_prod_conv False if_False Let_def
            ind_def[symmetric] t1 t2 pg t3 t4 simp_thms)
    have orig: "rs' ! (reverse_index ind ! i) = rs ! i \<and> fs' ! (reverse_index ind ! i) = fs ! i"
      if "i < n" for i
    proof -
      from ri(3)[OF that] have k: "reverse_index ind ! i < n"
        "ind ! (reverse_index ind ! i) = i" by simp_all
      from k(1) pi(2) have "rs' ! (reverse_index ind ! i) = rs ! (ind ! (reverse_index ind ! i))"
        "fs' ! (reverse_index ind ! i) = fs ! (ind ! (reverse_index ind ! i))"
        by (simp_all add: rs'_def fs'_def)
      with k(2) show ?thesis by simp
    qed
    have a: "map (\<lambda>j. concat (map fst out) ! j) (reverse_index ind)
               = map (\<lambda>i. M (rs ! i) (fs ! i)) [0..<n]"
    proof (rule nth_equalityI)
      show "length (map (\<lambda>j. concat (map fst out) ! j) (reverse_index ind))
              = length (map (\<lambda>i. M (rs ! i) (fs ! i)) [0..<n])" using ri(1) by simp
      fix i assume "i < length (map (\<lambda>j. concat (map fst out) ! j) (reverse_index ind))"
      then have i: "i < n" using ri(1) by simp
      from ri(3)[OF i] have k: "reverse_index ind ! i < n" by simp
      from i k ri(1) orig[OF i]
      show "map (\<lambda>j. concat (map fst out) ! j) (reverse_index ind) ! i
              = map (\<lambda>i. M (rs ! i) (fs ! i)) [0..<n] ! i"
        by (simp add: o1)
    qed
    have b: "map (\<lambda>j. concat (map snd out) ! j) (reverse_index ind)
               = map (\<lambda>i. V (rs ! i) (fs ! i)) [0..<n]"
    proof (rule nth_equalityI)
      show "length (map (\<lambda>j. concat (map snd out) ! j) (reverse_index ind))
              = length (map (\<lambda>i. V (rs ! i) (fs ! i)) [0..<n])" using ri(1) by simp
      fix i assume "i < length (map (\<lambda>j. concat (map snd out) ! j) (reverse_index ind))"
      then have i: "i < n" using ri(1) by simp
      from ri(3)[OF i] have k: "reverse_index ind ! i < n" by simp
      from i k ri(1) orig[OF i]
      show "map (\<lambda>j. concat (map snd out) ! j) (reverse_index ind) ! i
              = map (\<lambda>i. V (rs ! i) (fs ! i)) [0..<n] ! i"
        by (simp add: o2)
    qed
    show ?thesis by (simp only: run a b)
  qed
  have m: "map (\<lambda>i. M (rs ! i) (fs ! i)) [0..<n]
             = map (\<lambda>row. M \<lfloor>last row\<rfloor> (butlast row)) test_features"
    by (rule nth_equalityI) (simp_all add: n_def rs_def fs_def)
  have v: "map (\<lambda>i. V (rs ! i) (fs ! i)) [0..<n]
             = map (\<lambda>row. V \<lfloor>last row\<rfloor> (butlast row)) test_features"
    by (rule nth_equalityI) (simp_all add: n_def rs_def fs_def)
  show ?thesis
    unfolding goal m v by (simp only: M_def V_def)
qed

text \<open>
  Claim C1. Take a non-empty batch (in particular one that mixes two or more resource
  levels) whose resources are in range and all have a posterior; the per-resource
  \<open>predict\<close> is row-wise, that is, its output for a batch is the list of its outputs
  for the single rows; \<open>argsort\<close> returns a permutation of the row indices. Then
  \<open>predict\<close> returns, at position i, the posterior mean and variance of the
  configuration of row i under the posterior of the resource of row i: the output is in
  the order of the input rows, whatever order \<open>argsort\<close> gave the rows internally. For
  every permutation \<open>order\<close> of the row indices, \<open>predict\<close> of the permuted batch is
  the permuted output of the original batch.
\<close>

theorem predict_invariant_to_row_order:
  assumes ok: "list_all (decode_row_ok (resource_attr_range self)) test_features"
    and ne: "test_features \<noteq> []"
    and known: "\<forall>r\<in>set (resource_column test_features). map_of (states self) r \<noteq> None"
    and rowwise: "\<forall>(r, st)\<in>set (states self). \<forall>xs.
                    gp_predict st xs = (map (\<lambda>x. hd (fst (gp_predict st [x]))) xs,
                                        map (\<lambda>x. hd (snd (gp_predict st [x]))) xs)"
    and argsort: "\<forall>rs. sort (argsort rs) = [0..<length rs]"
    and perm: "sort order = [0..<length test_features]"
  shows "\<exists>means vars.
           predict argsort self test_features = Inr (means, vars)
           \<and> means = map (\<lambda>row. hd (fst (gp_predict (the (map_of (states self) \<lfloor>last row\<rfloor>))
                                           [butlast row]))) test_features
           \<and> vars = map (\<lambda>row. hd (snd (gp_predict (the (map_of (states self) \<lfloor>last row\<rfloor>))
                                          [butlast row]))) test_features
           \<and> predict argsort self (map (\<lambda>i. test_features ! i) order)
               = Inr (map (\<lambda>i. means ! i) order, map (\<lambda>i. vars ! i) order)"
proof -
  define n where "n = length test_features"
  define tf' where "tf' = map (\<lambda>i. test_features ! i) order"
  define mu where
    "mu = (\<lambda>row. hd (fst (gp_predict (the (map_of (states self) \<lfloor>last row\<rfloor>)) [butlast row])))"
  define sg where
    "sg = (\<lambda>row. hd (snd (gp_predict (the (map_of (states self) \<lfloor>last row\<rfloor>)) [butlast row])))"
  note pp = sorted_indices[OF perm]
  have p1: "sort (argsort (resource_column test_features)) = [0..<length test_features]"
    using argsort by simp
  have first: "predict argsort self test_features = Inr (map mu test_features, map sg test_features)"
    unfolding mu_def sg_def by (rule predict_rowwise[where argsort = argsort, OF ok ne known rowwise p1])
  have sub: "set tf' \<subseteq> set test_features"
    using pp(1) by (auto simp: tf'_def)
  have ok': "list_all (decode_row_ok (resource_attr_range self)) tf'"
    using ok sub by (auto simp: list_all_iff)
  have "length tf' = length test_features" by (simp add: tf'_def pp(2))
  with ne have ne': "tf' \<noteq> []" by auto
  have known': "\<forall>r\<in>set (resource_column tf'). map_of (states self) r \<noteq> None"
  proof
    fix r assume "r \<in> set (resource_column tf')"
    then obtain row where "row \<in> set tf'" "r = \<lfloor>last row\<rfloor>" by auto
    with sub have "r \<in> set (resource_column test_features)" by auto
    with known show "map_of (states self) r \<noteq> None" by blast
  qed
  have p2: "sort (argsort (resource_column tf')) = [0..<length tf']"
    using argsort by simp
  have second: "predict argsort self tf' = Inr (map mu tf', map sg tf')"
    unfolding mu_def sg_def by (rule predict_rowwise[where argsort = argsort, OF ok' ne' known' rowwise p2])
  have m: "map mu tf' = map (\<lambda>i. map mu test_features ! i) order"
    unfolding tf'_def map_map comp_def
    by (rule map_cong[OF refl]) (use pp(1) in simp)
  have v: "map sg tf' = map (\<lambda>i. map sg test_features ! i) order"
    unfolding tf'_def map_map comp_def
    by (rule map_cong[OF refl]) (use pp(1) in simp)
  show ?thesis
    unfolding tf'_def[symmetric] mu_def[symmetric] sg_def[symmetric]
    by (intro exI[of _ "map mu test_features"] exI[of _ "map sg test_features"] conjI
          first refl) (simp only: second m v)
qed

lemma example_gp_rowwise:
  "\<forall>(r, st)\<in>set (states example_state). \<forall>xs.
      gp_predict st xs = (map (\<lambda>x. hd (fst (gp_predict st [x]))) xs,
                          map (\<lambda>x. hd (snd (gp_predict st [x]))) xs)"
  by (simp add: example_state_def example_gp_def)

theorem predict_invariant_to_row_order_witness:
  "list_all (decode_row_ok (resource_attr_range example_state)) [[0, 3], [5, 1], [2, 3], [7, 1]]
   \<and> sort [2, 0, 3, 1 :: nat] = [0..<length [[0, 3], [5, 1], [2, 3], [7, 1 :: real]]]
   \<and> predict stable_argsort example_state [[0, 3], [5, 1], [2, 3], [7, 1]]
       = Inr ([[2], [6], [4], [8]], [2, 1, 2, 1])
   \<and> predict stable_argsort example_state [[2, 3], [0, 3], [7, 1], [5, 1]]
       = Inr ([[4], [2], [8], [6]], [2, 2, 1, 1])"
proof -
  have h1: "list_all (decode_row_ok (resource_attr_range example_state))
              [[0, 3], [5, 1], [2, 3], [7, 1]]"
    by (simp add: example_state_def decode_row_ok_def)
  have h2: "[[0, 3], [5, 1], [2, 3], [7, 1 :: real]] \<noteq> []" by simp
  have h3: "\<forall>r\<in>set (resource_column [[0, 3], [5, 1], [2, 3], [7, 1]]).
              map_of (states example_state) r \<noteq> None"
    by (simp add: example_state_def)
  have h5: "\<forall>rs. sort (stable_argsort rs) = [0..<length rs]"
    by (simp add: stable_argsort_permutation)
  have h6: "sort [2, 0, 3, 1 :: nat] = [0..<length [[0, 3], [5, 1], [2, 3], [7, 1 :: real]]]"
    by (simp add: example_upt4)
  show ?thesis
    using h1 h6 predict_invariant_to_row_order
            [where argsort = stable_argsort, OF h1 h2 h3 example_gp_rowwise h5 h6]
    by (simp add: example_state_def example_gp_def)
qed

end
